theory Spec2Isabelle
  imports Complex_Main
begin

section \<open>The fractal tree of \<^verbatim>\<open>src/js/main.js\<close>\<close>

text \<open>
  The program draws a Y-shaped tree on a canvas and grows it breadth first: a director
  keeps a queue of trees, and every tick of an interval timer takes the front tree, draws
  it and appends its two children.

  JavaScript numbers are modelled as the reals: \<open>Math.cos\<close>, \<open>Math.sin\<close> and \<open>Math.PI\<close>
  are \<^const>\<open>cos\<close>, \<^const>\<open>sin\<close> and \<^const>\<open>pi\<close>, and \<open>r ** 7\<close> is \<open>r ^ 7\<close>. The two
  products that decide which trees are drawn are given in binary64 as well (see the
  arithmetic of the runtime below). \<open>NaN\<close> and the infinities are outside the model; the
  values of the form fields are taken after their conversion by \<open>Number\<close>.
\<close>

subsection \<open>Points and trees\<close>

record Point =
  x_coord :: real
  y_coord :: real

record Tree =
  root_point :: Point
  trunkHeight :: real
  branchRatio :: real
  branchAngle :: real
  treeIncline :: real

definition p0 :: "Tree \<Rightarrow> Point" where
  "p0 t = root_point t"

definition p1 :: "Tree \<Rightarrow> Point" where
  "p1 t =
     (let a = treeIncline t - pi / 2;
          x = cos a * trunkHeight t + x_coord (p0 t);
          y = sin a * trunkHeight t + y_coord (p0 t)
      in \<lparr>x_coord = x, y_coord = y\<rparr>)"

definition p2 :: "Tree \<Rightarrow> Point" where
  "p2 t =
     (let a = branchAngle t / 2 - treeIncline t;
          branchLength = trunkHeight t * branchRatio t;
          x = x_coord (p1 t) - sin a * branchLength;
          y = y_coord (p1 t) - cos a * branchLength
      in \<lparr>x_coord = x, y_coord = y\<rparr>)"

definition p3 :: "Tree \<Rightarrow> Point" where
  "p3 t =
     (let a = branchAngle t / 2 + treeIncline t;
          branchLength = trunkHeight t * branchRatio t;
          x = x_coord (p1 t) + sin a * branchLength;
          y = y_coord (p1 t) - cos a * branchLength
      in \<lparr>x_coord = x, y_coord = y\<rparr>)"

text \<open>
  The specification's wording of the trunk end, to be compared with \<^const>\<open>p1\<close>: a unit
  vector is rotated, scaled and translated.
\<close>

definition rotate :: "real \<Rightarrow> Point \<Rightarrow> Point" where
  "rotate a p =
     \<lparr>x_coord = x_coord p * cos a - y_coord p * sin a,
      y_coord = x_coord p * sin a + y_coord p * cos a\<rparr>"

definition scale :: "real \<Rightarrow> Point \<Rightarrow> Point" where
  "scale k p = \<lparr>x_coord = k * x_coord p, y_coord = k * y_coord p\<rparr>"

definition translate :: "Point \<Rightarrow> Point \<Rightarrow> Point" where
  "translate v p = \<lparr>x_coord = x_coord p + x_coord v, y_coord = y_coord p + y_coord v\<rparr>"

definition unit_vector :: Point where
  "unit_vector = \<lparr>x_coord = 1, y_coord = 0\<rparr>"

definition trunkEnd_spec :: "Tree \<Rightarrow> Point" where
  "trunkEnd_spec t =
     translate (root_point t)
       (scale (trunkHeight t) (rotate (treeIncline t - pi / 2) unit_vector))"

subsection \<open>The canvas\<close>

text \<open>
  The 2D context is the collaborator the program paints on. The model keeps the calls the
  program makes on it, oldest first; assigning \<open>strokeStyle\<close> is one of them.
\<close>

datatype CanvasCall =
    BeginPath
  | StrokeStyle string
  | MoveTo real real
  | LineTo real real
  | Stroke
  | ClearRect real real real real

record Canvas =
  width :: real
  height :: real

definition drawTree :: "Tree \<Rightarrow> CanvasCall list \<Rightarrow> CanvasCall list" where
  "drawTree tree ctx =
     ctx @
     [BeginPath, StrokeStyle ''#333344'',
      MoveTo (x_coord (p0 tree)) (y_coord (p0 tree)),
      LineTo (x_coord (p1 tree)) (y_coord (p1 tree)), Stroke,
      BeginPath, StrokeStyle ''#333344'',
      MoveTo (x_coord (p1 tree)) (y_coord (p1 tree)),
      LineTo (x_coord (p2 tree)) (y_coord (p2 tree)), Stroke,
      BeginPath, StrokeStyle ''#AA3340'',
      MoveTo (x_coord (p1 tree)) (y_coord (p1 tree)),
      LineTo (x_coord (p3 tree)) (y_coord (p3 tree)), Stroke]"

text \<open>
  A surface is blank when, reading the calls from the newest, a \<open>clearRect\<close> that covers
  the whole canvas comes before any \<open>stroke\<close>. The list is given newest first.
\<close>

fun blank_newest_first :: "Canvas \<Rightarrow> CanvasCall list \<Rightarrow> bool" where
  "blank_newest_first cv [] = True"
| "blank_newest_first cv (Stroke # cs) = False"
| "blank_newest_first cv (ClearRect x y w h # cs) =
     (if x \<le> 0 \<and> y \<le> 0 \<and> width cv \<le> x + w \<and> height cv \<le> y + h then True
      else blank_newest_first cv cs)"
| "blank_newest_first cv (c # cs) = blank_newest_first cv cs"

definition blank :: "Canvas \<Rightarrow> CanvasCall list \<Rightarrow> bool" where
  "blank cv ctx = blank_newest_first cv (rev ctx)"

subsection \<open>The garden's specification and its director\<close>

text \<open>The page: the three form fields as numbers, and the canvas element.\<close>

record Document =
  trunk_height :: real
  branch_ratio :: real
  branch_angle :: real
  canvas_el :: Canvas

record GardenSpec =
  spec_canvas :: Canvas
  initialTrees :: "Tree list"

definition GardenSpec_new :: "Document \<Rightarrow> GardenSpec" where
  "GardenSpec_new doc =
     (let trunkHeight = trunk_height doc;
          branchRatio = branch_ratio doc;
          branchAngle = pi * branch_angle doc / 180
      in \<lparr>spec_canvas = canvas_el doc,
          initialTrees =
            [\<lparr>root_point =
                \<lparr>x_coord = width (canvas_el doc) / 2,
                 y_coord = height (canvas_el doc) * (88 / 100)\<rparr>,
              trunkHeight = trunkHeight,
              branchRatio = branchRatio,
              branchAngle = branchAngle,
              treeIncline = 0\<rparr>]\<rparr>)"

text \<open>
  The director holds the canvas, the queue \<open>trees\<close>, the threshold \<open>maxTrunkHeight\<close> and
  the handle of its timer (\<open>None\<close> for \<open>null\<close>). Its \<open>canvasContext\<close> is a reference to
  the one context of the page, so the calls live beside the director, not in it.
  \<open>initialTrees\<close> always holds one tree, so \<open>trees[0]\<close> is its head.
\<close>

record GardenDirector =
  canvas :: Canvas
  trees :: "Tree list"
  maxTrunkHeight :: real
  timerId :: "nat option"

definition GardenDirector_new :: "Document \<Rightarrow> GardenDirector" where
  "GardenDirector_new doc =
     (let spec = GardenSpec_new doc;
          ts = initialTrees spec
      in \<lparr>canvas = spec_canvas spec,
          trees = ts,
          maxTrunkHeight = trunkHeight (hd ts) * branchRatio (hd ts) ^ 7,
          timerId = None\<rparr>)"

definition planNextTrees :: "Tree \<Rightarrow> GardenDirector \<Rightarrow> GardenDirector" where
  "planNextTrees sourceTree d =
     (let root = p1 sourceTree;
          trunkHeight = trunkHeight sourceTree * branchRatio sourceTree;
          branchRatio = branchRatio sourceTree;
          branchAngle = branchAngle sourceTree;
          treeInclineLeft = treeIncline sourceTree - branchAngle / 2;
          treeInclineRight = treeIncline sourceTree + branchAngle / 2
      in d\<lparr>trees := trees d @
            [\<lparr>root_point = root, trunkHeight = trunkHeight, branchRatio = branchRatio,
              branchAngle = branchAngle, treeIncline = treeInclineLeft\<rparr>,
             \<lparr>root_point = root, trunkHeight = trunkHeight, branchRatio = branchRatio,
              branchAngle = branchAngle, treeIncline = treeInclineRight\<rparr>]\<rparr>)"

text \<open>
  One tick. \<open>shift\<close> on an empty array returns \<open>undefined\<close> and changes nothing; otherwise
  the front tree leaves the queue before the comparison with the threshold.
\<close>

definition work :: "GardenDirector \<times> CanvasCall list \<Rightarrow> GardenDirector \<times> CanvasCall list" where
  "work s =
     (case trees (fst s) of
        [] \<Rightarrow> s
      | tree # rest \<Rightarrow>
          (let d = (fst s)\<lparr>trees := rest\<rparr>
           in if trunkHeight tree < maxTrunkHeight d then (d, snd s)
              else (planNextTrees tree d, drawTree tree (snd s))))"

subsection \<open>Generations\<close>

text \<open>
  The two trees a tree spawns, and the list of the trees of one generation in the order
  in which the queue holds them (the root is generation 0).
\<close>

definition leftChild :: "Tree \<Rightarrow> Tree" where
  "leftChild t =
     \<lparr>root_point = p1 t, trunkHeight = trunkHeight t * branchRatio t,
      branchRatio = branchRatio t, branchAngle = branchAngle t,
      treeIncline = treeIncline t - branchAngle t / 2\<rparr>"

definition rightChild :: "Tree \<Rightarrow> Tree" where
  "rightChild t =
     \<lparr>root_point = p1 t, trunkHeight = trunkHeight t * branchRatio t,
      branchRatio = branchRatio t, branchAngle = branchAngle t,
      treeIncline = treeIncline t + branchAngle t / 2\<rparr>"

definition children :: "Tree list \<Rightarrow> Tree list" where
  "children ts = concat (map (\<lambda>t. [leftChild t, rightChild t]) ts)"

fun generation :: "nat \<Rightarrow> Tree \<Rightarrow> Tree list" where
  "generation 0 t = [t]"
| "generation (Suc g) t = children (generation g t)"

definition drawing :: "Tree list \<Rightarrow> CanvasCall list" where
  "drawing ts = concat (map (\<lambda>t. drawTree t []) ts)"

definition drawing_upto :: "nat \<Rightarrow> Tree \<Rightarrow> CanvasCall list" where
  "drawing_upto g t = concat (map (\<lambda>k. drawing (generation k t)) [0..<g])"

text \<open>
  The trees a tick appends to the queue, and how many trees \<open>n\<close> ticks append in all.
\<close>

definition pushed :: "GardenDirector \<times> CanvasCall list \<Rightarrow> Tree list" where
  "pushed s = drop (length (trees (fst s)) - 1) (trees (fst (work s)))"

fun pushes :: "nat \<Rightarrow> GardenDirector \<times> CanvasCall list \<Rightarrow> nat" where
  "pushes 0 s = 0"
| "pushes (Suc n) s = length (pushed s) + pushes n (work s)"

definition placed :: "nat \<Rightarrow> GardenDirector \<times> CanvasCall list \<Rightarrow> nat" where
  "placed n s = length (trees (fst s)) + pushes n s"

text \<open>
  Breadth-first order of a queue grown from a root of height \<open>h\<close> and ratio \<open>r\<close>: some
  trees of one generation, then trees of the next one, and nothing else.
\<close>

definition nonincreasing :: "real list \<Rightarrow> bool" where
  "nonincreasing hs = sorted_wrt (\<lambda>a b. b \<le> a) hs"

definition two_generations :: "real \<Rightarrow> real \<Rightarrow> Tree list \<Rightarrow> bool" where
  "two_generations h r q =
     (\<exists>g \<in> {0..8}. \<exists>k \<in> {0..length q}.
        map trunkHeight q = replicate k (h * r ^ g) @ replicate (length q - k) (h * r ^ Suc g))"

text \<open>
  The invariant of the queue that a tick maintains: the shape above, the threshold of the
  root, every tree with the root's ratio, and no tree beyond generation 8.
\<close>

definition bfs_inv :: "real \<Rightarrow> real \<Rightarrow> GardenDirector \<Rightarrow> bool" where
  "bfs_inv h r d \<longleftrightarrow>
     maxTrunkHeight d = h * r ^ 7 \<and>
     (\<forall>t \<in> set (trees d). branchRatio t = r) \<and>
     (\<exists>g \<in> {0..8}. \<exists>k \<in> {0..length (trees d)}.
        map trunkHeight (trees d) =
          replicate k (h * r ^ g) @ replicate (length (trees d) - k) (h * r ^ Suc g) \<and>
        (g = 8 \<longrightarrow> k = length (trees d)))"

subsection \<open>The page: the director's slot, the timers, start and stop\<close>

text \<open>
  \<open>window.gardenDirector\<close> is \<open>undefined\<close> at first, \<open>null\<close> after \<open>stop\<close>, or a reference.
  Directors are objects: a timer's callback keeps the director it was made for, so the
  page has a store of directors, addressed by their position, and each interval records
  the address of the director whose \<open>work\<close> it calls.
\<close>

datatype 'a slot = Undefined | Null | Ref 'a

record Interval =
  handle :: nat
  delay :: nat
  target :: nat

record Window =
  document :: Document
  context2d :: "CanvasCall list"
  gardenDirector :: "nat slot"
  store :: "GardenDirector list"
  intervals :: "Interval list"
  nextHandle :: nat

definition window0 :: "Document \<Rightarrow> Window" where
  "window0 doc =
     \<lparr>document = doc, context2d = [], gardenDirector = Undefined, store = [],
      intervals = [], nextHandle = 1\<rparr>"

definition setInterval :: "nat \<Rightarrow> nat \<Rightarrow> Window \<Rightarrow> nat \<times> Window" where
  "setInterval a ms w =
     (nextHandle w,
      w\<lparr>intervals := intervals w @ [\<lparr>handle = nextHandle w, delay = ms, target = a\<rparr>],
        nextHandle := Suc (nextHandle w)\<rparr>)"

definition clearInterval :: "nat \<Rightarrow> Window \<Rightarrow> Window" where
  "clearInterval h w = w\<lparr>intervals := filter (\<lambda>i. handle i \<noteq> h) (intervals w)\<rparr>"

definition run :: "nat \<Rightarrow> Window \<Rightarrow> Window" where
  "run a w =
     (case setInterval a 10 w of
        (h, w') \<Rightarrow> w'\<lparr>store := (store w')[a := (store w' ! a)\<lparr>timerId := Some h\<rparr>]\<rparr>)"

definition retire :: "nat \<Rightarrow> Window \<Rightarrow> Window" where
  "retire a w =
     (let w1 = (case timerId (store w ! a) of
                  Some h \<Rightarrow> (clearInterval h w)
                              \<lparr>store := (store w)[a := (store w ! a)\<lparr>timerId := None\<rparr>]\<rparr>
                | None \<Rightarrow> w);
          w2 = w1\<lparr>store := (store w1)[a := (store w1 ! a)\<lparr>trees := []\<rparr>]\<rparr>;
          cv = canvas (store w2 ! a)
      in w2\<lparr>context2d := context2d w2 @ [ClearRect 0 0 (width cv) (height cv)]\<rparr>)"

definition start :: "Window \<Rightarrow> Window" where
  "start w =
     (let w1 = (case gardenDirector w of
                  Ref a \<Rightarrow> w
                | _ \<Rightarrow> w\<lparr>store := store w @ [GardenDirector_new (document w)],
                          gardenDirector := Ref (length (store w))\<rparr>)
      in case gardenDirector w1 of Ref a \<Rightarrow> run a w1 | _ \<Rightarrow> w1)"

definition stop :: "Window \<Rightarrow> Window" where
  "stop w =
     (let w1 = (case gardenDirector w of Ref a \<Rightarrow> retire a w | _ \<Rightarrow> w)
      in w1\<lparr>gardenDirector := Null\<rparr>)"

text \<open>The interval with handle \<open>h\<close> fires: its callback runs \<open>work\<close> of its director.\<close>

definition fire :: "nat \<Rightarrow> Window \<Rightarrow> Window" where
  "fire h w =
     (case find (\<lambda>i. handle i = h) (intervals w) of
        None \<Rightarrow> w
      | Some i \<Rightarrow>
          (case work (store w ! target i, context2d w) of
             (d, ctx) \<Rightarrow> w\<lparr>store := (store w)[target i := d], context2d := ctx\<rparr>))"

subsection \<open>The arithmetic of the runtime\<close>

text \<open>
  Two computations decide which trees are drawn: the threshold \<open>h * r ** 7\<close> of the
  constructor and the height \<open>h * r\<close> of a child. The program computes them in binary64, so
  they are also given with the arithmetic as a parameter: a multiplication and a power.
  \<open>exact\<close> is the arithmetic of the reals. \<open>ieee\<close> rounds every result to the nearest
  binary64 number, ties to even, with gradual underflow (the least exponent of a unit in
  the last place is \<open>- 1074\<close>); the overflow to infinity is not modelled (no value below
  comes near \<open>2 ^ 1024\<close>), and \<open>**\<close> is taken as correctly rounded. Coordinates and inclines
  stay real numbers: they never enter a comparison.
\<close>

record Arith =
  ar_mul :: "real \<Rightarrow> real \<Rightarrow> real"
  ar_pow :: "real \<Rightarrow> nat \<Rightarrow> real"

definition exact :: Arith where
  "exact = \<lparr>ar_mul = (\<lambda>a b. a * b), ar_pow = (\<lambda>a n. a ^ n)\<rparr>"

definition rne :: "real \<Rightarrow> int" where
  "rne y =
     (let f = \<lfloor>y\<rfloor>
      in if y - of_int f < 1 / 2 then f
         else if 1 / 2 < y - of_int f then f + 1
         else if even f then f else f + 1)"

definition ulp_exp :: "real \<Rightarrow> int" where
  "ulp_exp x = max (\<lfloor>log 2 \<bar>x\<bar>\<rfloor> - 52) (- 1074)"

definition round64 :: "real \<Rightarrow> real" where
  "round64 x = (if x = 0 then 0 else of_int (rne (x / 2 powi ulp_exp x)) * 2 powi ulp_exp x)"

definition ieee :: Arith where
  "ieee = \<lparr>ar_mul = (\<lambda>a b. round64 (a * b)), ar_pow = (\<lambda>a n. round64 (a ^ n))\<rparr>"

text \<open>
  The constructor, \<open>planNextTrees\<close> and \<open>work\<close> in a given arithmetic; in \<open>exact\<close> they are
  the functions above (\<open>exact_director\<close>, \<open>exact_planNextTrees\<close>, \<open>exact_work\<close>).
\<close>

definition GardenDirector_new_in :: "Arith \<Rightarrow> Document \<Rightarrow> GardenDirector" where
  "GardenDirector_new_in ar doc =
     (let spec = GardenSpec_new doc;
          ts = initialTrees spec
      in \<lparr>canvas = spec_canvas spec,
          trees = ts,
          maxTrunkHeight = ar_mul ar (trunkHeight (hd ts)) (ar_pow ar (branchRatio (hd ts)) 7),
          timerId = None\<rparr>)"

definition planNextTrees_in :: "Arith \<Rightarrow> Tree \<Rightarrow> GardenDirector \<Rightarrow> GardenDirector" where
  "planNextTrees_in ar sourceTree d =
     (let root = p1 sourceTree;
          trunkHeight = ar_mul ar (trunkHeight sourceTree) (branchRatio sourceTree);
          branchRatio = branchRatio sourceTree;
          branchAngle = branchAngle sourceTree;
          treeInclineLeft = treeIncline sourceTree - branchAngle / 2;
          treeInclineRight = treeIncline sourceTree + branchAngle / 2
      in d\<lparr>trees := trees d @
            [\<lparr>root_point = root, trunkHeight = trunkHeight, branchRatio = branchRatio,
              branchAngle = branchAngle, treeIncline = treeInclineLeft\<rparr>,
             \<lparr>root_point = root, trunkHeight = trunkHeight, branchRatio = branchRatio,
              branchAngle = branchAngle, treeIncline = treeInclineRight\<rparr>]\<rparr>)"

definition work_in ::
  "Arith \<Rightarrow> GardenDirector \<times> CanvasCall list \<Rightarrow> GardenDirector \<times> CanvasCall list" where
  "work_in ar s =
     (case trees (fst s) of
        [] \<Rightarrow> s
      | tree # rest \<Rightarrow>
          (let d = (fst s)\<lparr>trees := rest\<rparr>
           in if trunkHeight tree < maxTrunkHeight d then (d, snd s)
              else (planNextTrees_in ar tree d, drawTree tree (snd s))))"

text \<open>
  The children, the generations, the height \<open>grown ar h r g\<close> of generation \<open>g\<close> (the
  root's height multiplied \<open>g\<close> times by the ratio), and the counts, in a given arithmetic.
\<close>

definition leftChild_in :: "Arith \<Rightarrow> Tree \<Rightarrow> Tree" where
  "leftChild_in ar t =
     \<lparr>root_point = p1 t, trunkHeight = ar_mul ar (trunkHeight t) (branchRatio t),
      branchRatio = branchRatio t, branchAngle = branchAngle t,
      treeIncline = treeIncline t - branchAngle t / 2\<rparr>"

definition rightChild_in :: "Arith \<Rightarrow> Tree \<Rightarrow> Tree" where
  "rightChild_in ar t =
     \<lparr>root_point = p1 t, trunkHeight = ar_mul ar (trunkHeight t) (branchRatio t),
      branchRatio = branchRatio t, branchAngle = branchAngle t,
      treeIncline = treeIncline t + branchAngle t / 2\<rparr>"

definition children_in :: "Arith \<Rightarrow> Tree list \<Rightarrow> Tree list" where
  "children_in ar ts = concat (map (\<lambda>t. [leftChild_in ar t, rightChild_in ar t]) ts)"

fun generation_in :: "Arith \<Rightarrow> nat \<Rightarrow> Tree \<Rightarrow> Tree list" where
  "generation_in ar 0 t = [t]"
| "generation_in ar (Suc g) t = children_in ar (generation_in ar g t)"

fun grown :: "Arith \<Rightarrow> real \<Rightarrow> real \<Rightarrow> nat \<Rightarrow> real" where
  "grown ar h r 0 = h"
| "grown ar h r (Suc g) = ar_mul ar (grown ar h r g) r"

definition drawing_upto_in :: "Arith \<Rightarrow> nat \<Rightarrow> Tree \<Rightarrow> CanvasCall list" where
  "drawing_upto_in ar g t = concat (map (\<lambda>k. drawing (generation_in ar k t)) [0..<g])"

definition pushed_in :: "Arith \<Rightarrow> GardenDirector \<times> CanvasCall list \<Rightarrow> Tree list" where
  "pushed_in ar s = drop (length (trees (fst s)) - 1) (trees (fst (work_in ar s)))"

fun pushes_in :: "Arith \<Rightarrow> nat \<Rightarrow> GardenDirector \<times> CanvasCall list \<Rightarrow> nat" where
  "pushes_in ar 0 s = 0"
| "pushes_in ar (Suc n) s = length (pushed_in ar s) + pushes_in ar n (work_in ar s)"

definition placed_in :: "Arith \<Rightarrow> nat \<Rightarrow> GardenDirector \<times> CanvasCall list \<Rightarrow> nat" where
  "placed_in ar n s = length (trees (fst s)) + pushes_in ar n s"

subsection \<open>What the calls paint\<close>

text \<open>
  The calls replayed on a surface: \<open>beginPath\<close> empties the path, \<open>moveTo\<close> sets the pen,
  \<open>lineTo\<close> adds a segment from the pen to the point (or only sets the pen when there is
  none), \<open>stroke\<close> paints the segments of the path in the current style, and a
  \<open>clearRect\<close> that covers the canvas erases what is painted (one that does not cover it
  is taken to erase nothing; the program issues none). \<open>segments\<close> are the three strokes
  of one tree: the trunk and the left branch in \<open>#333344\<close>, the right branch in
  \<open>#AA3340\<close>.
\<close>

record Surface =
  pen_style :: string
  pen_at :: "Point option"
  pen_path :: "(Point \<times> Point) list"
  painted :: "(string \<times> Point \<times> Point) list"

definition surface0 :: Surface where
  "surface0 = \<lparr>pen_style = ''#000000'', pen_at = None, pen_path = [], painted = []\<rparr>"

fun paint :: "Canvas \<Rightarrow> Surface \<Rightarrow> CanvasCall \<Rightarrow> Surface" where
  "paint cv s BeginPath = s\<lparr>pen_at := None, pen_path := []\<rparr>"
| "paint cv s (StrokeStyle c) = s\<lparr>pen_style := c\<rparr>"
| "paint cv s (MoveTo x y) = s\<lparr>pen_at := Some \<lparr>x_coord = x, y_coord = y\<rparr>\<rparr>"
| "paint cv s (LineTo x y) =
     (case pen_at s of
        None \<Rightarrow> s\<lparr>pen_at := Some \<lparr>x_coord = x, y_coord = y\<rparr>\<rparr>
      | Some p \<Rightarrow>
          s\<lparr>pen_at := Some \<lparr>x_coord = x, y_coord = y\<rparr>,
            pen_path := pen_path s @ [(p, \<lparr>x_coord = x, y_coord = y\<rparr>)]\<rparr>)"
| "paint cv s Stroke = s\<lparr>painted := painted s @ map (\<lambda>seg. (pen_style s, seg)) (pen_path s)\<rparr>"
| "paint cv s (ClearRect x y w h) =
     (if x \<le> 0 \<and> y \<le> 0 \<and> width cv \<le> x + w \<and> height cv \<le> y + h then s\<lparr>painted := []\<rparr>
      else s)"

definition replay :: "Canvas \<Rightarrow> CanvasCall list \<Rightarrow> Surface" where
  "replay cv ctx = foldl (paint cv) surface0 ctx"

definition segments :: "Tree \<Rightarrow> (string \<times> Point \<times> Point) list" where
  "segments t =
     [(''#333344'', p0 t, p1 t), (''#333344'', p1 t, p2 t), (''#AA3340'', p1 t, p3 t)]"

definition segments_upto :: "nat \<Rightarrow> Tree \<Rightarrow> (string \<times> Point \<times> Point) list" where
  "segments_upto g t = concat (map (\<lambda>k. concat (map segments (generation k t))) [0..<g])"

definition segments_upto_in :: "Arith \<Rightarrow> nat \<Rightarrow> Tree \<Rightarrow> (string \<times> Point \<times> Point) list" where
  "segments_upto_in ar g t =
     concat (map (\<lambda>k. concat (map segments (generation_in ar k t))) [0..<g])"

subsection \<open>The scenario of the specification\<close>

definition scenario :: Document where
  "scenario =
     \<lparr>trunk_height = 100, branch_ratio = 7 / 10, branch_angle = 30,
      canvas_el = \<lparr>width = 200, height = 1250 / 11\<rparr>\<rparr>"

definition scenario_root :: Tree where
  "scenario_root =
     \<lparr>root_point = \<lparr>x_coord = 100, y_coord = 100\<rparr>, trunkHeight = 100,
      branchRatio = 7 / 10, branchAngle = pi / 6, treeIncline = 0\<rparr>"

text \<open>
  The scenario as the program receives it: \<open>Number("0.7")\<close> is the binary64 number nearest
  to 0.7. A second page with the ratio nearest to 0.65.
\<close>

definition scenario64 :: Document where
  "scenario64 =
     \<lparr>trunk_height = 100, branch_ratio = 3152519739159347 / 4503599627370496, branch_angle = 30,
      canvas_el = \<lparr>width = 200, height = 1250 / 11\<rparr>\<rparr>"

definition scenario64_root :: Tree where
  "scenario64_root =
     \<lparr>root_point = \<lparr>x_coord = 100, y_coord = 100\<rparr>, trunkHeight = 100,
      branchRatio = 3152519739159347 / 4503599627370496, branchAngle = pi / 6, treeIncline = 0\<rparr>"

definition ratio65 :: Document where
  "ratio65 =
     \<lparr>trunk_height = 100, branch_ratio = 5854679515581645 / 9007199254740992, branch_angle = 30,
      canvas_el = \<lparr>width = 200, height = 1250 / 11\<rparr>\<rparr>"

text \<open>A director with a short tree in front of the scenario's root, for examples.\<close>

definition small_garden :: GardenDirector where
  "small_garden =
     \<lparr>canvas = \<lparr>width = 200, height = 100\<rparr>,
      trees = [scenario_root\<lparr>trunkHeight := 5\<rparr>, scenario_root],
      maxTrunkHeight = 10, timerId = None\<rparr>"

section \<open>Geometry\<close>

lemma p1_coords:
  "x_coord (p1 t) = x_coord (root_point t) + cos (treeIncline t - pi / 2) * trunkHeight t"
  "y_coord (p1 t) = y_coord (root_point t) + sin (treeIncline t - pi / 2) * trunkHeight t"
  by (simp_all add: p1_def p0_def Let_def)

text \<open>
  C5: the trunk end \<open>p1\<close> is the origin translated by the unit vector rotated by
  \<open>incline - pi/2\<close> and scaled by the trunk length, that is
  \<open>(origin.x + cos (incline - pi/2) * trunkLength, origin.y + sin (incline - pi/2) * trunkLength)\<close>.
\<close>

theorem C5_trunk_end:
  "p1 t = trunkEnd_spec t \<and>
   p1 t = \<lparr>x_coord = x_coord (root_point t) + cos (treeIncline t - pi / 2) * trunkHeight t,
           y_coord = y_coord (root_point t) + sin (treeIncline t - pi / 2) * trunkHeight t\<rparr>"
  by (simp add: p1_def p0_def Let_def trunkEnd_spec_def translate_def scale_def rotate_def
      unit_vector_def mult.commute add.commute)

text \<open>
  C6: with \<open>branchLen = trunkLength * branchRatio\<close>, the left end \<open>p2\<close> is \<open>p1\<close> moved by
  \<open>(- sin a * branchLen, - cos a * branchLen)\<close> for \<open>a = branchAngle/2 - incline\<close>, and the
  right end \<open>p3\<close> is \<open>p1\<close> moved by \<open>(sin a * branchLen, - cos a * branchLen)\<close> for
  \<open>a = branchAngle/2 + incline\<close>.
\<close>

theorem C6_child_ends:
  "p2 t = translate
            \<lparr>x_coord = - sin (branchAngle t / 2 - treeIncline t) * (trunkHeight t * branchRatio t),
             y_coord = - cos (branchAngle t / 2 - treeIncline t) * (trunkHeight t * branchRatio t)\<rparr>
            (p1 t) \<and>
   p3 t = translate
            \<lparr>x_coord = sin (branchAngle t / 2 + treeIncline t) * (trunkHeight t * branchRatio t),
             y_coord = - cos (branchAngle t / 2 + treeIncline t) * (trunkHeight t * branchRatio t)\<rparr>
            (p1 t)"
  by (simp add: p2_def p3_def Let_def translate_def)

text \<open>
  The two branches of the drawing are the trunks of the children: \<open>p2\<close> and \<open>p3\<close> are the
  trunk ends of the left and the right child. In the scenario the trunk is vertical.
\<close>

lemma quarter_turn: "cos (a - pi / 2) = sin a" "sin (a - pi / 2) = - cos a"
  by (simp_all add: cos_diff sin_diff)

lemma p2_is_left_trunk_end: "p2 t = p1 (leftChild t)"
proof -
  have flip: "treeIncline t - branchAngle t / 2 = - (branchAngle t / 2 - treeIncline t)"
    by simp
  have "sin (treeIncline t - branchAngle t / 2) = - sin (branchAngle t / 2 - treeIncline t)"
    and "cos (treeIncline t - branchAngle t / 2) = cos (branchAngle t / 2 - treeIncline t)"
    unfolding flip by (rule sin_minus, rule cos_minus)
  then show ?thesis
    by (simp add: p1_def p2_def p0_def leftChild_def Let_def quarter_turn)
qed

lemma p3_is_right_trunk_end: "p3 t = p1 (rightChild t)"
  by (simp add: p1_def p3_def p0_def rightChild_def Let_def quarter_turn
      add.commute)

lemma scenario_trunk_end: "p1 scenario_root = \<lparr>x_coord = 100, y_coord = 0\<rparr>"
  by (simp add: p1_def p0_def scenario_root_def Let_def)

section \<open>One tick\<close>

lemma planNextTrees_children:
  "planNextTrees t d = d\<lparr>trees := trees d @ [leftChild t, rightChild t]\<rparr>"
  by (simp add: planNextTrees_def leftChild_def rightChild_def Let_def)

lemma drawTree_append: "drawTree t c = c @ drawTree t []"
  by (simp add: drawTree_def)

lemma work_empty: "trees d = [] \<Longrightarrow> work (d, c) = (d, c)"
  by (simp add: work_def)

lemma work_discard:
  "trees d = t # rest \<Longrightarrow> trunkHeight t < maxTrunkHeight d \<Longrightarrow>
   work (d, c) = (d\<lparr>trees := rest\<rparr>, c)"
  by (simp add: work_def)

lemma work_draw:
  "trees d = t # rest \<Longrightarrow> \<not> trunkHeight t < maxTrunkHeight d \<Longrightarrow>
   work (d, c) = (d\<lparr>trees := rest @ [leftChild t, rightChild t]\<rparr>, drawTree t c)"
  by (simp add: work_def planNextTrees_children)

lemma work_maxTrunkHeight: "maxTrunkHeight (fst (work s)) = maxTrunkHeight (fst s)"
  by (simp add: work_def planNextTrees_children Let_def split: list.split)

lemma work_canvas: "canvas (fst (work s)) = canvas (fst s)"
  by (simp add: work_def planNextTrees_children Let_def split: list.split)

lemma work_timerId: "timerId (fst (work s)) = timerId (fst s)"
  by (simp add: work_def planNextTrees_children Let_def split: list.split)

lemma children_Cons: "children (t # ts) = leftChild t # rightChild t # children ts"
  by (simp add: children_def)

lemma children_Nil: "children [] = []"
  by (simp add: children_def)

lemma drawing_Cons: "drawing (t # ts) = drawTree t [] @ drawing ts"
  by (simp add: drawing_def)

lemma batch_draw:
  "\<forall>t \<in> set ts. \<not> trunkHeight t < maxTrunkHeight d \<Longrightarrow>
   (work ^^ length ts) (d\<lparr>trees := ts @ us\<rparr>, c) =
     (d\<lparr>trees := us @ children ts\<rparr>, c @ drawing ts)"
proof (induction ts arbitrary: us c)
  case Nil
  show ?case by (simp add: children_def drawing_def)
next
  case (Cons t ts)
  have step: "work (d\<lparr>trees := (t # ts) @ us\<rparr>, c) =
      (d\<lparr>trees := ts @ (us @ [leftChild t, rightChild t])\<rparr>, c @ drawTree t [])"
    using Cons.prems work_draw [of "d\<lparr>trees := (t # ts) @ us\<rparr>" t "ts @ us" c]
    by (simp add: drawTree_append [of t c])
  have rest: "\<forall>t \<in> set ts. \<not> trunkHeight t < maxTrunkHeight d"
    using Cons.prems by simp
  show ?case
    using Cons.IH [OF rest, of "us @ [leftChild t, rightChild t]" "c @ drawTree t []"] step
    by (simp add: funpow_swap1 children_Cons drawing_Cons)
qed

lemma batch_discard:
  "\<forall>t \<in> set ts. trunkHeight t < maxTrunkHeight d \<Longrightarrow>
   (work ^^ length ts) (d\<lparr>trees := ts @ us\<rparr>, c) = (d\<lparr>trees := us\<rparr>, c)"
proof (induction ts)
  case Nil
  show ?case by simp
next
  case (Cons t ts)
  have step: "work (d\<lparr>trees := (t # ts) @ us\<rparr>, c) = (d\<lparr>trees := ts @ us\<rparr>, c)"
    using Cons.prems work_discard [of "d\<lparr>trees := (t # ts) @ us\<rparr>" t "ts @ us" c] by simp
  show ?case using Cons step by (simp add: funpow_swap1)
qed

lemma generation_fields:
  "t \<in> set (generation g t0) \<Longrightarrow>
   trunkHeight t = trunkHeight t0 * branchRatio t0 ^ g \<and> branchRatio t = branchRatio t0 \<and>
   branchAngle t = branchAngle t0"
proof (induction g arbitrary: t)
  case 0
  then show ?case by simp
next
  case (Suc g)
  then obtain u where u: "u \<in> set (generation g t0)" and t: "t = leftChild u \<or> t = rightChild u"
    by (auto simp: children_def)
  from Suc.IH [OF u] t show ?case
    by (auto simp: leftChild_def rightChild_def)
qed

lemma length_children: "length (children ts) = 2 * length ts"
  by (induction ts) (simp_all add: children_Cons children_Nil)

lemma length_generation: "length (generation g t) = 2 ^ g"
  by (induction g) (simp_all add: length_children)

section \<open>Whole generations\<close>

lemma drawing_upto_Suc: "drawing_upto (Suc g) t = drawing_upto g t @ drawing (generation g t)"
  by (simp add: drawing_upto_def)

lemma generation_drawn:
  assumes "maxTrunkHeight d = trunkHeight t0 * branchRatio t0 ^ 7"
    and "0 \<le> trunkHeight t0" and "0 \<le> branchRatio t0" and "branchRatio t0 \<le> 1" and "g \<le> 7"
  shows "\<forall>t \<in> set (generation g t0). \<not> trunkHeight t < maxTrunkHeight d"
proof
  fix t assume "t \<in> set (generation g t0)"
  then have "trunkHeight t = trunkHeight t0 * branchRatio t0 ^ g"
    by (simp add: generation_fields)
  moreover have "branchRatio t0 ^ 7 \<le> branchRatio t0 ^ g"
    using assms by (intro power_decreasing) simp_all
  ultimately show "\<not> trunkHeight t < maxTrunkHeight d"
    using assms by (simp add: mult_left_mono not_less)
qed

lemma generation_8_discarded:
  assumes "maxTrunkHeight d = trunkHeight t0 * branchRatio t0 ^ 7"
    and "0 < trunkHeight t0" and "0 < branchRatio t0" and "branchRatio t0 < 1"
  shows "\<forall>t \<in> set (generation 8 t0). trunkHeight t < maxTrunkHeight d"
proof
  fix t assume "t \<in> set (generation 8 t0)"
  then have "trunkHeight t = trunkHeight t0 * branchRatio t0 ^ 8"
    by (simp add: generation_fields)
  moreover have "branchRatio t0 ^ 8 < branchRatio t0 ^ 7"
    using assms by (intro power_strict_decreasing) simp_all
  ultimately show "trunkHeight t < maxTrunkHeight d"
    using assms by simp
qed

lemma run_generations:
  assumes "maxTrunkHeight d = trunkHeight t0 * branchRatio t0 ^ 7"
    and "0 \<le> trunkHeight t0" and "0 \<le> branchRatio t0" and "branchRatio t0 \<le> 1"
  shows "g \<le> 8 \<Longrightarrow>
    (work ^^ (2 ^ g - 1)) (d\<lparr>trees := [t0]\<rparr>, c) =
      (d\<lparr>trees := generation g t0\<rparr>, c @ drawing_upto g t0)"
proof (induction g)
  case 0
  show ?case by (simp add: drawing_upto_def)
next
  case (Suc g)
  then have g: "g \<le> 7" and IH: "(work ^^ (2 ^ g - 1)) (d\<lparr>trees := [t0]\<rparr>, c) =
      (d\<lparr>trees := generation g t0\<rparr>, c @ drawing_upto g t0)"
    by simp_all
  have split: "(2::nat) ^ Suc g - 1 = length (generation g t0) + (2 ^ g - 1)"
    by (simp add: length_generation)
  have "(work ^^ (2 ^ Suc g - 1)) (d\<lparr>trees := [t0]\<rparr>, c) =
      (work ^^ length (generation g t0)) (d\<lparr>trees := generation g t0 @ []\<rparr>, c @ drawing_upto g t0)"
    by (simp only: split funpow_add o_apply IH append_Nil2)
  also have "\<dots> = (d\<lparr>trees := [] @ children (generation g t0)\<rparr>,
      (c @ drawing_upto g t0) @ drawing (generation g t0))"
    by (rule batch_draw) (rule generation_drawn [OF assms g])
  finally show ?case by (simp add: drawing_upto_Suc)
qed

lemma funpow_work_empty: "trees d = [] \<Longrightarrow> (work ^^ n) (d, c) = (d, c)"
  by (induction n) (simp_all add: work_empty)

lemma run_all:
  assumes "maxTrunkHeight d = trunkHeight t0 * branchRatio t0 ^ 7"
    and "0 < trunkHeight t0" and "0 < branchRatio t0" and "branchRatio t0 < 1"
  shows "(work ^^ 511) (d\<lparr>trees := [t0]\<rparr>, c) = (d\<lparr>trees := []\<rparr>, c @ drawing_upto 8 t0)"
proof -
  have first: "(work ^^ 255) (d\<lparr>trees := [t0]\<rparr>, c) =
      (d\<lparr>trees := generation 8 t0 @ []\<rparr>, c @ drawing_upto 8 t0)"
    using run_generations [of d t0 8 c] assms by simp
  have len: "(511::nat) = length (generation 8 t0) + 255"
    by (simp add: length_generation)
  show ?thesis
    unfolding len funpow_add
    using batch_discard [OF generation_8_discarded [OF assms], of "[]" "c @ drawing_upto 8 t0"]
    by (simp add: first)
qed

lemma run_beyond:
  assumes "maxTrunkHeight d = trunkHeight t0 * branchRatio t0 ^ 7"
    and "0 < trunkHeight t0" and "0 < branchRatio t0" and "branchRatio t0 < 1"
    and "511 \<le> n"
  shows "(work ^^ n) (d\<lparr>trees := [t0]\<rparr>, c) = (d\<lparr>trees := []\<rparr>, c @ drawing_upto 8 t0)"
proof -
  from \<open>511 \<le> n\<close> obtain k where n: "n = k + 511"
    by (metis le_add_diff_inverse2)
  show ?thesis
    unfolding n funpow_add
    using run_all [OF assms(1-4), of c] by (simp add: funpow_work_empty)
qed

subsection \<open>Counting\<close>

lemma pushes_add: "pushes (m + n) s = pushes m s + pushes n ((work ^^ m) s)"
  by (induction m arbitrary: s) (simp_all add: funpow_swap1)

lemma pushes_mono: "m \<le> n \<Longrightarrow> pushes m s \<le> pushes n s"
  using pushes_add [of m "n - m" s] by simp

lemma pushes_empty: "trees (fst s) = [] \<Longrightarrow> pushes n s = 0"
proof (induction n)
  case 0
  show ?case by simp
next
  case (Suc n)
  then have "work s = s" by (cases s) (simp add: work_empty)
  with Suc show ?case by (simp add: pushed_def)
qed

lemma pushed_draw:
  "trees d = t # rest \<Longrightarrow> \<not> trunkHeight t < maxTrunkHeight d \<Longrightarrow>
   pushed (d, c) = [leftChild t, rightChild t]"
  by (simp add: pushed_def work_draw)

lemma pushed_discard:
  "trees d = t # rest \<Longrightarrow> trunkHeight t < maxTrunkHeight d \<Longrightarrow> pushed (d, c) = []"
  by (simp add: pushed_def work_discard)

lemma pushes_batch_draw:
  "\<forall>t \<in> set ts. \<not> trunkHeight t < maxTrunkHeight d \<Longrightarrow>
   pushes (length ts) (d\<lparr>trees := ts @ us\<rparr>, c) = 2 * length ts"
proof (induction ts arbitrary: us c)
  case Nil
  show ?case by simp
next
  case (Cons t ts)
  have front: "\<not> trunkHeight t < maxTrunkHeight (d\<lparr>trees := (t # ts) @ us\<rparr>)"
    using Cons.prems by simp
  have step: "work (d\<lparr>trees := t # ts @ us\<rparr>, c) =
      (d\<lparr>trees := ts @ (us @ [leftChild t, rightChild t])\<rparr>, drawTree t c)"
    using work_draw [OF _ front, of "ts @ us" c] by simp
  have two: "pushed (d\<lparr>trees := t # ts @ us\<rparr>, c) = [leftChild t, rightChild t]"
    using pushed_draw [OF _ front, of "ts @ us" c] by simp
  have rest: "\<forall>t \<in> set ts. \<not> trunkHeight t < maxTrunkHeight d"
    using Cons.prems by simp
  show ?case
    using Cons.IH [OF rest, of "us @ [leftChild t, rightChild t]" "drawTree t c"]
    by (simp add: step two)
qed

lemma pushes_batch_discard:
  "\<forall>t \<in> set ts. trunkHeight t < maxTrunkHeight d \<Longrightarrow>
   pushes (length ts) (d\<lparr>trees := ts @ us\<rparr>, c) = 0"
proof (induction ts)
  case Nil
  show ?case by simp
next
  case (Cons t ts)
  have front: "trunkHeight t < maxTrunkHeight (d\<lparr>trees := (t # ts) @ us\<rparr>)"
    using Cons.prems by simp
  have step: "work (d\<lparr>trees := t # ts @ us\<rparr>, c) = (d\<lparr>trees := ts @ us\<rparr>, c)"
    using work_discard [OF _ front, of "ts @ us" c] by simp
  have none: "pushed (d\<lparr>trees := t # ts @ us\<rparr>, c) = []"
    using pushed_discard [OF _ front, of "ts @ us" c] by simp
  show ?case using Cons by (simp add: step none)
qed

lemma pushes_generations:
  assumes "maxTrunkHeight d = trunkHeight t0 * branchRatio t0 ^ 7"
    and "0 \<le> trunkHeight t0" and "0 \<le> branchRatio t0" and "branchRatio t0 \<le> 1"
  shows "g \<le> 8 \<Longrightarrow> pushes (2 ^ g - 1) (d\<lparr>trees := [t0]\<rparr>, c) = 2 ^ Suc g - 2"
proof (induction g)
  case 0
  show ?case by simp
next
  case (Suc g)
  then have g: "g \<le> 7" and g8: "g \<le> 8"
    and IH: "pushes (2 ^ g - 1) (d\<lparr>trees := [t0]\<rparr>, c) = 2 ^ Suc g - 2"
    by simp_all
  have split: "(2::nat) ^ Suc g - 1 = (2 ^ g - 1) + length (generation g t0)"
    by (simp add: length_generation)
  have batch: "pushes (length (generation g t0))
      (d\<lparr>trees := generation g t0 @ []\<rparr>, c @ drawing_upto g t0) = 2 * length (generation g t0)"
    by (rule pushes_batch_draw) (rule generation_drawn [OF assms g])
  have "pushes (2 ^ Suc g - 1) (d\<lparr>trees := [t0]\<rparr>, c) =
      (2 ^ Suc g - 2) + 2 * length (generation g t0)"
    by (simp only: split pushes_add IH run_generations [OF assms g8] batch [simplified append_Nil2])
  then have "pushes (2 ^ Suc g - 1) (d\<lparr>trees := [t0]\<rparr>, c) = (2 ^ Suc g - 2) + 2 * 2 ^ g"
    by (simp only: length_generation)
  also have "\<dots> = 2 ^ Suc (Suc g) - 2"
    by simp
  finally show ?case .
qed

lemma pushes_all:
  assumes "maxTrunkHeight d = trunkHeight t0 * branchRatio t0 ^ 7"
    and "0 < trunkHeight t0" and "0 < branchRatio t0" and "branchRatio t0 < 1"
  shows "pushes n (d\<lparr>trees := [t0]\<rparr>, c) \<le> 510"
    and "255 \<le> n \<Longrightarrow> pushes n (d\<lparr>trees := [t0]\<rparr>, c) = 510"
proof -
  let ?s = "(d\<lparr>trees := [t0]\<rparr>, c)"
  have weak: "0 \<le> trunkHeight t0" "0 \<le> branchRatio t0" "branchRatio t0 \<le> 1"
    using assms by simp_all
  have p255: "pushes 255 ?s = 510"
    using pushes_generations [OF assms(1) weak, of 8 c] by simp
  have at255: "(work ^^ 255) ?s = (d\<lparr>trees := generation 8 t0 @ []\<rparr>, c @ drawing_upto 8 t0)"
    using run_generations [OF assms(1) weak, of 8 c] by simp
  have p256: "pushes 256 ((work ^^ 255) ?s) = 0"
    using pushes_batch_discard [OF generation_8_discarded [OF assms], of "[]" "c @ drawing_upto 8 t0"]
    by (simp add: at255 length_generation)
  have p511: "pushes 511 ?s = 510"
    using pushes_add [of 255 256 ?s] p255 p256 by simp
  have late: "pushes n ?s = 510" if "511 \<le> n" for n
  proof -
    from that obtain k where n: "n = 511 + k"
      by (metis le_add_diff_inverse)
    show ?thesis
      unfolding n pushes_add
      by (simp add: p511 pushes_empty run_all [OF assms])
  qed
  show le: "pushes n ?s \<le> 510"
  proof (cases "n \<le> 511")
    case True
    then show ?thesis using pushes_mono [of n 511 ?s] p511 by simp
  next
    case False
    then show ?thesis using late [of n] by simp
  qed
  show "pushes n ?s = 510" if "255 \<le> n"
    using pushes_mono [OF that, of ?s] p255 le by simp
qed

section \<open>Runs from a single root\<close>

lemma trees_update_same: "trees d = q \<Longrightarrow> d\<lparr>trees := q\<rparr> = d"
  by (cases d) simp

lemma scenario_director:
  "GardenDirector_new scenario =
     \<lparr>canvas = \<lparr>width = 200, height = 1250 / 11\<rparr>, trees = [scenario_root],
      maxTrunkHeight = 100 * (7 / 10) ^ 7, timerId = None\<rparr>"
  by (simp add: GardenDirector_new_def GardenSpec_new_def scenario_def scenario_root_def Let_def)

lemma scenario_facts:
  "trees (GardenDirector_new scenario) = [scenario_root]"
  "maxTrunkHeight (GardenDirector_new scenario) =
     trunkHeight scenario_root * branchRatio scenario_root ^ 7"
  "0 < trunkHeight scenario_root" "0 < branchRatio scenario_root" "branchRatio scenario_root < 1"
  "0 \<le> trunkHeight scenario_root" "0 \<le> branchRatio scenario_root" "branchRatio scenario_root \<le> 1"
  by (simp_all add: scenario_director) (simp_all add: scenario_root_def)

lemma run_from_root:
  assumes "trees d = [t0]" and "maxTrunkHeight d = trunkHeight t0 * branchRatio t0 ^ 7"
    and "0 \<le> trunkHeight t0" and "0 \<le> branchRatio t0" and "branchRatio t0 \<le> 1" and "g \<le> 8"
  shows "(work ^^ (2 ^ g - 1)) (d, c) = (d\<lparr>trees := generation g t0\<rparr>, c @ drawing_upto g t0)"
  using run_generations [OF assms(2-5) assms(6), of c] trees_update_same [OF assms(1)] by simp

lemma run_to_end:
  assumes "trees d = [t0]" and "maxTrunkHeight d = trunkHeight t0 * branchRatio t0 ^ 7"
    and "0 < trunkHeight t0" and "0 < branchRatio t0" and "branchRatio t0 < 1" and "511 \<le> n"
  shows "(work ^^ n) (d, c) = (d\<lparr>trees := []\<rparr>, c @ drawing_upto 8 t0)"
  using run_beyond [OF assms(2-5) assms(6), of c] trees_update_same [OF assms(1)] by simp

lemma pushes_from_root:
  assumes "trees d = [t0]" and "maxTrunkHeight d = trunkHeight t0 * branchRatio t0 ^ 7"
    and "0 < trunkHeight t0" and "0 < branchRatio t0" and "branchRatio t0 < 1"
  shows "pushes n (d, c) \<le> 510" and "255 \<le> n \<Longrightarrow> pushes n (d, c) = 510"
  using pushes_all [OF assms(2-5), of n c] trees_update_same [OF assms(1)] by simp_all

lemma queue_shrinks_slowly:
  "length (trees (fst s)) \<le> length (trees (fst ((work ^^ n) s))) + n"
proof (induction n)
  case 0
  show ?case by simp
next
  case (Suc n)
  have "length (trees (fst s')) \<le> length (trees (fst (work s'))) + 1" for s'
    by (cases s') (simp add: work_def planNextTrees_children Let_def split: list.split)
  from this [of "(work ^^ n) s"] Suc show ?case by simp
qed

lemma queue_nonempty_before_end:
  assumes "trees d = [t0]" and "maxTrunkHeight d = trunkHeight t0 * branchRatio t0 ^ 7"
    and "0 < trunkHeight t0" and "0 < branchRatio t0" and "branchRatio t0 < 1" and "n < 511"
  shows "trees (fst ((work ^^ n) (d, c))) \<noteq> []"
proof
  assume empty: "trees (fst ((work ^^ n) (d, c))) = []"
  have at255: "(work ^^ 255) (d, c) = (d\<lparr>trees := generation 8 t0\<rparr>, c @ drawing_upto 8 t0)"
    using run_from_root [OF assms(1,2), of 8 c] assms(3-5) by simp
  show False
  proof (cases "n \<le> 255")
    case True
    define k where "k = 255 - n"
    have k: "255 = k + n" using True by (simp add: k_def)
    obtain d' c' where s: "(work ^^ n) (d, c) = (d', c')" by (cases "(work ^^ n) (d, c)")
    with empty have "trees d' = []" by simp
    then have "(work ^^ 255) (d, c) = (d', c')"
      unfolding k funpow_add by (simp add: s funpow_work_empty)
    with at255 \<open>trees d' = []\<close> have "generation 8 t0 = []" by auto
    then have "length (generation 8 t0) = 0" by simp
    then show False by (simp add: length_generation)
  next
    case False
    define k where "k = n - 255"
    have k: "n = k + 255" and "k < 256"
      using False \<open>n < 511\<close> by (simp_all add: k_def)
    have "length (trees (fst ((work ^^ 255) (d, c)))) \<le>
        length (trees (fst ((work ^^ k) ((work ^^ 255) (d, c))))) + k"
      by (rule queue_shrinks_slowly)
    then have "256 \<le> k"
      using empty unfolding k funpow_add by (simp add: at255 length_generation)
    with \<open>k < 256\<close> show False by simp
  qed
qed

section \<open>The threshold and the children\<close>

lemma run_maxTrunkHeight:
  "b < length (store w) \<Longrightarrow> maxTrunkHeight (store (run a w) ! b) = maxTrunkHeight (store w ! b)"
  by (cases "a = b") (simp_all add: run_def setInterval_def)

lemma retire_maxTrunkHeight:
  "b < length (store w) \<Longrightarrow> maxTrunkHeight (store (retire a w) ! b) = maxTrunkHeight (store w ! b)"
  by (cases "a = b") (simp_all add: retire_def clearInterval_def Let_def split: option.split)

lemma fire_maxTrunkHeight:
  "maxTrunkHeight (store (fire h w) ! b) = maxTrunkHeight (store w ! b)" if "b < length (store w)"
proof (cases "find (\<lambda>i. handle i = h) (intervals w)")
  case None
  then show ?thesis by (simp add: fire_def)
next
  case (Some i)
  obtain d ctx where step: "work (store w ! target i, context2d w) = (d, ctx)"
    by (cases "work (store w ! target i, context2d w)")
  have "maxTrunkHeight d = maxTrunkHeight (store w ! target i)"
    using work_maxTrunkHeight [of "(store w ! target i, context2d w)"] by (simp add: step)
  with that step show ?thesis
    by (cases "target i = b") (simp_all add: fire_def Some)
qed

text \<open>
  C4: the threshold is set once, by the constructor, to the root's \<open>trunkHeight\<close> times its
  \<open>branchRatio\<close> to the power 7; no tick and no operation of the page changes it; and a
  tick whose front tree is shorter than the threshold drops that tree, drawing nothing and
  appending nothing.
\<close>

theorem C4_threshold:
  "maxTrunkHeight (GardenDirector_new doc) = trunk_height doc * branch_ratio doc ^ 7 \<and>
   maxTrunkHeight (fst (work (d, c))) = maxTrunkHeight d \<and>
   (b < length (store w) \<longrightarrow>
      maxTrunkHeight (store (run a w) ! b) = maxTrunkHeight (store w ! b) \<and>
      maxTrunkHeight (store (retire a w) ! b) = maxTrunkHeight (store w ! b) \<and>
      maxTrunkHeight (store (fire h w) ! b) = maxTrunkHeight (store w ! b)) \<and>
   (trees d = t # rest \<and> trunkHeight t < maxTrunkHeight d \<longrightarrow>
      work (d, c) = (d\<lparr>trees := rest\<rparr>, c))"
  using work_maxTrunkHeight [of "(d, c)"]
  by (simp add: GardenDirector_new_def GardenSpec_new_def Let_def work_discard
      run_maxTrunkHeight retire_maxTrunkHeight fire_maxTrunkHeight)

theorem C4_threshold_witness:
  "maxTrunkHeight (GardenDirector_new scenario) = 100 * (7 / 10) ^ 7 \<and>
   (0::nat) < length (store (start (window0 scenario))) \<and>
   maxTrunkHeight (store (run 0 (start (window0 scenario))) ! 0) = 100 * (7 / 10) ^ 7 \<and>
   maxTrunkHeight (store (retire 0 (start (window0 scenario))) ! 0) = 100 * (7 / 10) ^ 7 \<and>
   maxTrunkHeight (store (fire 1 (start (window0 scenario))) ! 0) = 100 * (7 / 10) ^ 7 \<and>
   trees small_garden = [scenario_root\<lparr>trunkHeight := 5\<rparr>, scenario_root] \<and>
   trunkHeight (scenario_root\<lparr>trunkHeight := 5\<rparr>) < maxTrunkHeight small_garden \<and>
   work (small_garden, [Stroke]) = (small_garden\<lparr>trees := [scenario_root]\<rparr>, [Stroke])"
  using C4_threshold [of scenario small_garden "[Stroke]" 0 "start (window0 scenario)" 0 1
      "scenario_root\<lparr>trunkHeight := 5\<rparr>" "[scenario_root]"]
  by (simp add: small_garden_def start_def window0_def run_def setInterval_def scenario_director
      scenario_def)

text \<open>
  C7: the two trees a tick spawns keep the parent's \<open>branchRatio\<close> and \<open>branchAngle\<close>,
  have the parent's \<open>trunkHeight\<close> times its \<open>branchRatio\<close>, start at the parent's
  \<open>p1\<close>, incline by the parent's incline minus (left) and plus (right) half the
  \<open>branchAngle\<close>, and both go to the tail of the queue, the left one first.
\<close>

theorem C7_children:
  "trees d = t # rest \<and> \<not> trunkHeight t < maxTrunkHeight d \<longrightarrow>
   work (d, c) = (planNextTrees t (d\<lparr>trees := rest\<rparr>), drawTree t c) \<and>
   trees (planNextTrees t (d\<lparr>trees := rest\<rparr>)) =
     rest @
     [\<lparr>root_point = p1 t, trunkHeight = trunkHeight t * branchRatio t,
       branchRatio = branchRatio t, branchAngle = branchAngle t,
       treeIncline = treeIncline t - branchAngle t / 2\<rparr>,
      \<lparr>root_point = p1 t, trunkHeight = trunkHeight t * branchRatio t,
       branchRatio = branchRatio t, branchAngle = branchAngle t,
       treeIncline = treeIncline t + branchAngle t / 2\<rparr>]"
  by (simp add: work_def planNextTrees_def Let_def)

theorem C7_children_witness:
  "trees small_garden = [scenario_root\<lparr>trunkHeight := 5\<rparr>, scenario_root] \<and>
   \<not> trunkHeight scenario_root < maxTrunkHeight (small_garden\<lparr>trees := [scenario_root]\<rparr>) \<and>
   trees (fst (work (small_garden\<lparr>trees := [scenario_root]\<rparr>, []))) =
     [\<lparr>root_point = p1 scenario_root, trunkHeight = 70,
       branchRatio = 7 / 10, branchAngle = pi / 6, treeIncline = - (pi / 12)\<rparr>,
      \<lparr>root_point = p1 scenario_root, trunkHeight = 70,
       branchRatio = 7 / 10, branchAngle = pi / 6, treeIncline = pi / 12\<rparr>]"
  using C7_children [of "small_garden\<lparr>trees := [scenario_root]\<rparr>" scenario_root "[]" "[]"]
  by (simp add: small_garden_def scenario_root_def)

section \<open>The scenario, termination and the order of the queue\<close>

lemma placed_from_root:
  assumes "trees d = [t0]" and "maxTrunkHeight d = trunkHeight t0 * branchRatio t0 ^ 7"
    and "0 < trunkHeight t0" and "0 < branchRatio t0" and "branchRatio t0 < 1"
  shows "placed n (d, c) \<le> 511" and "255 \<le> n \<Longrightarrow> placed n (d, c) = 511"
  using pushes_from_root [OF assms, of n c] assms(1) by (simp_all add: placed_def)

lemma generation_nonempty: "generation g t \<noteq> []"
  using length_generation [of g t] by (cases "generation g t") simp_all

lemma drawTree_nonempty: "drawTree t [] \<noteq> []"
  by (simp add: drawTree_def)

text \<open>The run of the scenario in exact arithmetic.\<close>

lemma scenario_exact_run:
  "trees (GardenDirector_new scenario) = [scenario_root] \<and>
   maxTrunkHeight (GardenDirector_new scenario) = 100 * (7 / 10) ^ 7 \<and>
   (work ^^ 255) (GardenDirector_new scenario, []) =
     ((GardenDirector_new scenario)\<lparr>trees := generation 8 scenario_root\<rparr>,
      drawing_upto 8 scenario_root) \<and>
   (work ^^ 511) (GardenDirector_new scenario, []) =
     ((GardenDirector_new scenario)\<lparr>trees := []\<rparr>, drawing_upto 8 scenario_root)"
proof -
  have "(work ^^ (2 ^ 8 - 1)) (GardenDirector_new scenario, []) =
     ((GardenDirector_new scenario)\<lparr>trees := generation 8 scenario_root\<rparr>,
      [] @ drawing_upto 8 scenario_root)"
    by (rule run_from_root) (simp_all add: scenario_facts)
  moreover have "(work ^^ 511) (GardenDirector_new scenario, []) =
     ((GardenDirector_new scenario)\<lparr>trees := []\<rparr>, [] @ drawing_upto 8 scenario_root)"
    by (rule run_to_end) (simp_all add: scenario_facts)
  ultimately show ?thesis
    by (simp add: scenario_director)
qed

text \<open>
  Against C1 as stated (generation 7 dropped): after 127 ticks a tree of generation 7 is
  at the front of the queue, and the next tick draws it and appends its two children.
\<close>

theorem C1_generation_7_drawn:
  "hd (trees (fst ((work ^^ 127) (GardenDirector_new scenario, [])))) \<in>
     set (generation 7 scenario_root) \<and>
   snd ((work ^^ 128) (GardenDirector_new scenario, [])) \<noteq>
     snd ((work ^^ 127) (GardenDirector_new scenario, [])) \<and>
   length (trees (fst ((work ^^ 128) (GardenDirector_new scenario, [])))) =
     length (trees (fst ((work ^^ 127) (GardenDirector_new scenario, [])))) + 1"
proof -
  let ?D = "GardenDirector_new scenario"
  have at127: "(work ^^ (2 ^ 7 - 1)) (?D, []) =
      (?D\<lparr>trees := generation 7 scenario_root\<rparr>, [] @ drawing_upto 7 scenario_root)"
    by (rule run_from_root) (simp_all add: scenario_facts)
  obtain t rest where q: "generation 7 scenario_root = t # rest"
    using generation_nonempty [of 7 scenario_root] by (cases "generation 7 scenario_root") auto
  then have t: "t \<in> set (generation 7 scenario_root)"
    by simp
  have "\<not> trunkHeight t < maxTrunkHeight ?D"
    using generation_fields [OF t] by (simp add: scenario_facts)
  then have step: "work (?D\<lparr>trees := generation 7 scenario_root\<rparr>, drawing_upto 7 scenario_root) =
      (?D\<lparr>trees := rest @ [leftChild t, rightChild t]\<rparr>,
       drawTree t (drawing_upto 7 scenario_root))"
    using work_draw [of "?D\<lparr>trees := generation 7 scenario_root\<rparr>" t rest] q by simp
  have "(work ^^ 128) (?D, []) = work ((work ^^ 127) (?D, []))"
    by (simp add: numeral_eq_Suc)
  then show ?thesis
    using at127 step q drawTree_append [of t "drawing_upto 7 scenario_root"] drawTree_nonempty [of t]
    by simp
qed

text \<open>
  Against C2 as stated (at most \<open>2 ^ 8 - 1\<close> trees placed): in the scenario 511 trees
  have been placed on the queue after 255 ticks.
\<close>

theorem C2_more_than_255_placed:
  "\<not> placed 255 (GardenDirector_new scenario, []) \<le> 2 ^ 8 - 1"
  using placed_from_root(2) [of "GardenDirector_new scenario" scenario_root 255 "[]"]
  by (simp add: scenario_facts)

subsection \<open>The order of the queue\<close>

lemma replicate_two_more: "replicate n x @ [x, x] = replicate (Suc (Suc n)) x"
  by (induction n) simp_all

lemma bfs_invI:
  assumes "maxTrunkHeight d = h * r ^ 7" and "\<forall>t \<in> set (trees d). branchRatio t = r"
    and "g \<le> 8" and "k \<le> length (trees d)"
    and "map trunkHeight (trees d) =
      replicate k (h * r ^ g) @ replicate (length (trees d) - k) (h * r ^ Suc g)"
    and "g = 8 \<longrightarrow> k = length (trees d)"
  shows "bfs_inv h r d"
proof -
  have "g \<in> {0..8}" and "k \<in> {0..length (trees d)}"
    using assms(3,4) by simp_all
  then show ?thesis
    unfolding bfs_inv_def using assms(1,2,5,6) by blast
qed

lemma bfs_inv_front:
  assumes "bfs_inv h r d" and "trees d = t # rest"
  obtains g k where "g \<le> 8" and "k \<le> length rest" and "trunkHeight t = h * r ^ g"
    and "map trunkHeight rest = replicate k (h * r ^ g) @ replicate (length rest - k) (h * r ^ Suc g)"
    and "g = 8 \<longrightarrow> k = length rest"
proof -
  from assms(1) obtain g0 k0 where "g0 \<in> {0..8}" and "k0 \<in> {0..length (trees d)}"
    and "map trunkHeight (trees d) =
      replicate k0 (h * r ^ g0) @ replicate (length (trees d) - k0) (h * r ^ Suc g0)"
    and "g0 = 8 \<longrightarrow> k0 = length (trees d)"
    unfolding bfs_inv_def by blast
  then have g0: "g0 \<le> 8" and k0: "k0 \<le> Suc (length rest)"
    and hs: "trunkHeight t # map trunkHeight rest =
      replicate k0 (h * r ^ g0) @ replicate (Suc (length rest) - k0) (h * r ^ Suc g0)"
    and last: "g0 = 8 \<longrightarrow> k0 = Suc (length rest)"
    by (simp_all add: assms(2))
  show thesis
  proof (cases k0)
    case 0
    with last g0 have "Suc g0 \<le> 8" by auto
    moreover from hs 0 have "trunkHeight t = h * r ^ Suc g0"
      and "map trunkHeight rest = replicate (length rest) (h * r ^ Suc g0)"
      by simp_all
    ultimately show thesis
      using that [of "Suc g0" "length rest"] by simp
  next
    case (Suc k')
    with hs have "trunkHeight t = h * r ^ g0"
      and "map trunkHeight rest = replicate k' (h * r ^ g0) @ replicate (length rest - k') (h * r ^ Suc g0)"
      by simp_all
    then show thesis
      using that [of g0 k'] g0 k0 last Suc by simp
  qed
qed

lemma bfs_inv_work:
  assumes "0 < h" and "0 < r" and "r < 1" and inv: "bfs_inv h r d"
  shows "bfs_inv h r (fst (work (d, c)))"
proof (cases "trees d")
  case Nil
  then show ?thesis using inv by (simp add: work_empty)
next
  case (Cons t rest)
  have max: "maxTrunkHeight d = h * r ^ 7" and ratio: "\<forall>u \<in> set (t # rest). branchRatio u = r"
    using inv Cons by (simp_all add: bfs_inv_def)
  from bfs_inv_front [OF inv Cons] obtain g k where g: "g \<le> 8" and k: "k \<le> length rest"
    and t: "trunkHeight t = h * r ^ g"
    and hs: "map trunkHeight rest =
      replicate k (h * r ^ g) @ replicate (length rest - k) (h * r ^ Suc g)"
    and last: "g = 8 \<longrightarrow> k = length rest"
    by blast
  show ?thesis
  proof (cases "trunkHeight t < maxTrunkHeight d")
    case True
    then have "fst (work (d, c)) = d\<lparr>trees := rest\<rparr>"
      by (simp add: work_discard [OF Cons])
    moreover have "bfs_inv h r (d\<lparr>trees := rest\<rparr>)"
      using max ratio g k hs last by (intro bfs_invI [of _ _ _ g k]) simp_all
    ultimately show ?thesis by simp
  next
    case False
    have "g \<noteq> 8"
    proof
      assume "g = 8"
      moreover have "r ^ 8 < r ^ 7"
        using assms by (intro power_strict_decreasing) simp_all
      ultimately have "trunkHeight t < maxTrunkHeight d"
        using t max assms by simp
      with False show False by simp
    qed
    with g have g7: "g \<le> 7" by simp
    let ?q = "rest @ [leftChild t, rightChild t]"
    have step: "fst (work (d, c)) = d\<lparr>trees := ?q\<rparr>"
      using False by (simp add: work_draw [OF Cons])
    have kids: "trunkHeight (leftChild t) = h * r ^ Suc g" "trunkHeight (rightChild t) = h * r ^ Suc g"
      "branchRatio (leftChild t) = r" "branchRatio (rightChild t) = r"
      using t ratio by (simp_all add: leftChild_def rightChild_def)
    have len: "length ?q - k = Suc (Suc (length rest - k))"
      using k by simp
    have "map trunkHeight ?q =
        replicate k (h * r ^ g) @ replicate (length ?q - k) (h * r ^ Suc g)"
      unfolding len using hs kids
      by (simp add: replicate_two_more del: replicate_Suc)
    moreover have "k \<le> length ?q" using k by simp
    moreover have "g = 8 \<longrightarrow> k = length ?q" using g7 by simp
    moreover have "\<forall>u \<in> set ?q. branchRatio u = r" using ratio kids by simp
    ultimately have "bfs_inv h r (d\<lparr>trees := ?q\<rparr>)"
      using max g by (intro bfs_invI [of _ _ _ g k]) simp_all
    with step show ?thesis by simp
  qed
qed

lemma bfs_inv_root:
  assumes "trees d = [t0]" and "maxTrunkHeight d = trunkHeight t0 * branchRatio t0 ^ 7"
  shows "bfs_inv (trunkHeight t0) (branchRatio t0) d"
  using assms by (intro bfs_invI [of _ _ _ 0 1]) simp_all

lemma bfs_inv_run:
  assumes "0 < h" and "0 < r" and "r < 1" and "bfs_inv h r d"
  shows "bfs_inv h r (fst ((work ^^ n) (d, c)))"
proof (induction n)
  case 0
  show ?case using assms by simp
next
  case (Suc n)
  obtain d' c' where s: "(work ^^ n) (d, c) = (d', c')"
    by (cases "(work ^^ n) (d, c)")
  with Suc have "bfs_inv h r d'" by simp
  from bfs_inv_work [OF assms(1-3) this, of c'] show ?case by (simp add: s)
qed

lemma bfs_inv_two_generations: "bfs_inv h r d \<Longrightarrow> two_generations h r (trees d)"
  by (auto simp: bfs_inv_def two_generations_def)

lemma nonincreasing_replicate: "nonincreasing (replicate k (a::real))"
  by (induction k) (simp_all add: nonincreasing_def)

lemma two_generations_nonincreasing:
  assumes "0 \<le> h" and "0 \<le> r" and "r \<le> 1" and "two_generations h r q"
  shows "nonincreasing (map trunkHeight q)"
proof -
  from assms(4) obtain g k where
    hs: "map trunkHeight q = replicate k (h * r ^ g) @ replicate (length q - k) (h * r ^ Suc g)"
    by (auto simp: two_generations_def)
  have "r ^ Suc g \<le> r ^ g"
    using assms by (intro power_decreasing) simp_all
  then have "h * r ^ Suc g \<le> h * r ^ g"
    using assms(1) by (rule mult_left_mono)
  then show ?thesis
    unfolding hs
    using nonincreasing_replicate [of k "h * r ^ g"]
      nonincreasing_replicate [of "length q - k" "h * r ^ Suc g"]
    by (auto simp: nonincreasing_def sorted_wrt_append)
qed

text \<open>
  C10: from a single root of positive \<open>trunkHeight\<close> and a \<open>branchRatio\<close> in (0, 1), after
  any number of ticks the heights in the queue do not increase from front to back, the
  queue holds trees of one generation followed by trees of the next one, and the order
  still holds after one more tick.
\<close>

theorem C10_breadth_first_order:
  assumes "trees d = [t0]" and "maxTrunkHeight d = trunkHeight t0 * branchRatio t0 ^ 7"
    and "0 < trunkHeight t0" and "0 < branchRatio t0" and "branchRatio t0 < 1"
  shows "nonincreasing (map trunkHeight (trees (fst ((work ^^ n) (d, c))))) \<and>
         two_generations (trunkHeight t0) (branchRatio t0) (trees (fst ((work ^^ n) (d, c)))) \<and>
         nonincreasing (map trunkHeight (trees (fst (work ((work ^^ n) (d, c))))))"
proof -
  have inv: "bfs_inv (trunkHeight t0) (branchRatio t0) (fst ((work ^^ m) (d, c)))" for m
    using bfs_inv_run [OF assms(3-5) bfs_inv_root [OF assms(1,2)]] .
  have "nonincreasing (map trunkHeight (trees (fst ((work ^^ m) (d, c)))))" for m
    using two_generations_nonincreasing [OF _ _ _ bfs_inv_two_generations [OF inv [of m]]] assms
    by simp
  from this [of n] this [of "Suc n"] bfs_inv_two_generations [OF inv [of n]]
  show ?thesis by simp
qed

theorem C10_breadth_first_order_witness:
  "trees (GardenDirector_new scenario) = [scenario_root] \<and>
   maxTrunkHeight (GardenDirector_new scenario) =
     trunkHeight scenario_root * branchRatio scenario_root ^ 7 \<and>
   0 < trunkHeight scenario_root \<and> 0 < branchRatio scenario_root \<and>
   branchRatio scenario_root < 1 \<and>
   nonincreasing (map trunkHeight (trees (fst ((work ^^ 2) (GardenDirector_new scenario, []))))) \<and>
   two_generations (trunkHeight scenario_root) (branchRatio scenario_root)
     (trees (fst ((work ^^ 2) (GardenDirector_new scenario, []))))"
  using C10_breadth_first_order [of "GardenDirector_new scenario" scenario_root 2 "[]"]
  by (simp add: scenario_facts)

lemma scenario_two_ticks:
  "map trunkHeight (trees (fst ((work ^^ 2) (GardenDirector_new scenario, [])))) = [70, 49, 49]"
  by (simp add: scenario_director numeral_2_eq_2 work_def planNextTrees_def
      scenario_root_def Let_def power_divide)

section \<open>Start and stop\<close>

lemma start_fresh:
  "start (window0 doc) =
     \<lparr>document = doc, context2d = [], gardenDirector = Ref 0,
      store = [(GardenDirector_new doc)\<lparr>timerId := Some 1\<rparr>],
      intervals = [\<lparr>handle = 1, delay = 10, target = 0\<rparr>], nextHandle = 2\<rparr>"
  by (simp add: start_def window0_def run_def setInterval_def)

lemma start_again:
  "start (start (window0 doc)) =
     \<lparr>document = doc, context2d = [], gardenDirector = Ref 0,
      store = [(GardenDirector_new doc)\<lparr>timerId := Some 2\<rparr>],
      intervals = [\<lparr>handle = 1, delay = 10, target = 0\<rparr>, \<lparr>handle = 2, delay = 10, target = 0\<rparr>],
      nextHandle = 3\<rparr>"
  by (simp add: start_fresh) (simp add: start_def run_def setInterval_def)

lemma stop_after_start:
  "stop (start (window0 doc)) =
     \<lparr>document = doc,
      context2d = [ClearRect 0 0 (width (canvas_el doc)) (height (canvas_el doc))],
      gardenDirector = Null,
      store = [(GardenDirector_new doc)\<lparr>trees := [], timerId := None\<rparr>],
      intervals = [], nextHandle = 2\<rparr>"
  by (simp add: start_fresh)
    (simp add: stop_def retire_def clearInterval_def Let_def GardenDirector_new_def
      GardenSpec_new_def)

lemma stop_after_start_again:
  "stop (start (start (window0 doc))) =
     \<lparr>document = doc,
      context2d = [ClearRect 0 0 (width (canvas_el doc)) (height (canvas_el doc))],
      gardenDirector = Null,
      store = [(GardenDirector_new doc)\<lparr>trees := [], timerId := None\<rparr>],
      intervals = [\<lparr>handle = 1, delay = 10, target = 0\<rparr>], nextHandle = 3\<rparr>"
  by (simp add: start_again)
    (simp add: stop_def retire_def clearInterval_def Let_def GardenDirector_new_def
      GardenSpec_new_def)

lemma stop_stop: "stop (stop w) = stop w"
  by (simp add: stop_def Let_def)

lemma stop_slot: "gardenDirector (stop w) = Null"
  by (simp add: stop_def Let_def)

lemma retire_effect:
  assumes "a < length (store w)"
  shows "trees (store (retire a w) ! a) = []"
    and "timerId (store (retire a w) ! a) = None"
    and "timerId (store w ! a) = Some h \<Longrightarrow> h \<notin> handle ` set (intervals (retire a w))"
    and "blank (canvas (store w ! a)) (context2d (retire a w))"
  using assms
  by (auto simp: retire_def clearInterval_def Let_def blank_def split: option.split)

text \<open>
  What \<open>stop\<close> does in any state: with a director, its queue is emptied, its own timer
  is cleared and the canvas is cleared; without one, only the slot becomes \<open>null\<close>.
\<close>

lemma stop_effect:
  assumes "gardenDirector w = Ref a" and "a < length (store w)"
  shows "trees (store (stop w) ! a) = []"
    and "timerId (store (stop w) ! a) = None"
    and "timerId (store w ! a) = Some h \<Longrightarrow> h \<notin> handle ` set (intervals (stop w))"
    and "blank (canvas (store w ! a)) (context2d (stop w))"
  using retire_effect [OF assms(2)] assms(1) by (simp_all add: stop_def Let_def)

lemma stop_idle:
  "gardenDirector w = Undefined \<or> gardenDirector w = Null \<Longrightarrow>
   stop w = w\<lparr>gardenDirector := Null\<rparr>"
  by (auto simp: stop_def Let_def)

text \<open>
  After \<open>start\<close>, \<open>start\<close>, \<open>stop\<close> the interval that is left calls \<open>work\<close> of the retired
  director, whose queue is empty: the call changes nothing.
\<close>

lemma fire_retired:
  "fire 1 (stop (start (start (window0 doc)))) = stop (start (start (window0 doc)))"
  by (simp add: stop_after_start_again) (simp add: fire_def work_def)

text \<open>
  C3 says that \<open>start\<close> is idempotent: called while running, it leaves exactly one periodic
  invocation of \<open>work\<close>, every 10 time units. The program keeps the director (\<open>||=\<close>) but
  \<open>run\<close> calls \<open>setInterval\<close> again and overwrites \<open>timerId\<close>: after two calls two intervals
  are active, the director knows only the second, and the state differs from the one
  after a single call.
\<close>

theorem C3_start_twice:
  "intervals (start (window0 scenario)) = [\<lparr>handle = 1, delay = 10, target = 0\<rparr>] \<and>
   intervals (start (start (window0 scenario))) =
     [\<lparr>handle = 1, delay = 10, target = 0\<rparr>, \<lparr>handle = 2, delay = 10, target = 0\<rparr>] \<and>
   timerId (store (start (start (window0 scenario))) ! 0) = Some 2 \<and>
   start (start (window0 scenario)) \<noteq> start (window0 scenario)"
  by (simp add: start_again) (simp add: start_fresh)

text \<open>
  C8 says that after \<open>stop\<close>, whatever the state before, nothing is running, the queue is
  empty and the surface is blank. After a single \<open>start\<close> this holds (\<open>stop_after_start\<close>,
  \<open>stop_effect\<close>), and a second \<open>stop\<close> changes nothing (\<open>stop_stop\<close>). After two calls of
  \<open>start\<close>, \<open>retire\<close> clears only the interval whose handle the director holds: the first
  interval stays active after \<open>stop\<close>.
\<close>

theorem C8_stop_after_start_twice:
  "intervals (stop (start (window0 scenario))) = [] \<and>
   intervals (stop (start (start (window0 scenario)))) =
     [\<lparr>handle = 1, delay = 10, target = 0\<rparr>] \<and>
   gardenDirector (stop (start (start (window0 scenario)))) = Null \<and>
   timerId (store (stop (start (start (window0 scenario)))) ! 0) = None"
  by (simp add: stop_after_start stop_after_start_again)

section \<open>The scheduler in any arithmetic\<close>

lemma power_two_Suc: "\<exists>m. (2::nat) ^ g = Suc m"
  by (induction g) auto

lemma exact_planNextTrees: "planNextTrees_in exact = planNextTrees"
  by (intro ext) (simp add: planNextTrees_in_def planNextTrees_def exact_def)

lemma exact_work: "work_in exact = work"
  by (rule ext) (simp add: work_in_def work_def exact_planNextTrees Let_def split: list.split)

lemma exact_director: "GardenDirector_new_in exact = GardenDirector_new"
  by (rule ext) (simp add: GardenDirector_new_in_def GardenDirector_new_def exact_def)

lemma exact_grown: "grown exact h r g = h * r ^ g"
  by (induction g) (simp_all add: exact_def)

lemma planNextTrees_in_children:
  "planNextTrees_in ar t d = d\<lparr>trees := trees d @ [leftChild_in ar t, rightChild_in ar t]\<rparr>"
  by (simp add: planNextTrees_in_def leftChild_in_def rightChild_in_def Let_def)

lemma work_in_empty: "trees d = [] \<Longrightarrow> work_in ar (d, c) = (d, c)"
  by (simp add: work_in_def)

lemma work_in_discard:
  "trees d = t # rest \<Longrightarrow> trunkHeight t < maxTrunkHeight d \<Longrightarrow>
   work_in ar (d, c) = (d\<lparr>trees := rest\<rparr>, c)"
  by (simp add: work_in_def)

lemma work_in_draw:
  "trees d = t # rest \<Longrightarrow> \<not> trunkHeight t < maxTrunkHeight d \<Longrightarrow>
   work_in ar (d, c) =
     (d\<lparr>trees := rest @ [leftChild_in ar t, rightChild_in ar t]\<rparr>, drawTree t c)"
  by (simp add: work_in_def planNextTrees_in_children)

lemma children_in_Cons:
  "children_in ar (t # ts) = leftChild_in ar t # rightChild_in ar t # children_in ar ts"
  by (simp add: children_in_def)

lemma length_children_in: "length (children_in ar ts) = 2 * length ts"
  by (induction ts) (simp_all add: children_in_def)

lemma length_generation_in: "length (generation_in ar g t) = 2 ^ g"
  by (induction g) (simp_all add: length_children_in)

lemma generation_in_fields:
  "t \<in> set (generation_in ar g t0) \<Longrightarrow>
   trunkHeight t = grown ar (trunkHeight t0) (branchRatio t0) g \<and> branchRatio t = branchRatio t0"
proof (induction g arbitrary: t)
  case 0
  then show ?case by simp
next
  case (Suc g)
  then obtain u where u: "u \<in> set (generation_in ar g t0)"
    and t: "t = leftChild_in ar u \<or> t = rightChild_in ar u"
    by (auto simp: children_in_def)
  from Suc.IH [OF u] t show ?case
    by (auto simp: leftChild_in_def rightChild_in_def)
qed

lemma batch_draw_in:
  "\<forall>t \<in> set ts. \<not> trunkHeight t < maxTrunkHeight d \<Longrightarrow>
   (work_in ar ^^ length ts) (d\<lparr>trees := ts @ us\<rparr>, c) =
     (d\<lparr>trees := us @ children_in ar ts\<rparr>, c @ drawing ts) \<and>
   pushes_in ar (length ts) (d\<lparr>trees := ts @ us\<rparr>, c) = 2 * length ts"
proof (induction ts arbitrary: us c)
  case Nil
  show ?case by (simp add: children_in_def drawing_def)
next
  case (Cons t ts)
  have front: "\<not> trunkHeight t < maxTrunkHeight (d\<lparr>trees := t # ts @ us\<rparr>)"
    using Cons.prems by simp
  have step: "work_in ar (d\<lparr>trees := t # ts @ us\<rparr>, c) =
      (d\<lparr>trees := ts @ (us @ [leftChild_in ar t, rightChild_in ar t])\<rparr>, c @ drawTree t [])"
    using work_in_draw [OF _ front, of "ts @ us" ar c] by (simp add: drawTree_append [of t c])
  have two: "pushed_in ar (d\<lparr>trees := t # ts @ us\<rparr>, c) = [leftChild_in ar t, rightChild_in ar t]"
    by (simp add: pushed_in_def step)
  have rest: "\<forall>t \<in> set ts. \<not> trunkHeight t < maxTrunkHeight d"
    using Cons.prems by simp
  show ?case
    using Cons.IH [OF rest, of "us @ [leftChild_in ar t, rightChild_in ar t]" "c @ drawTree t []"]
    by (simp add: funpow_swap1 step two children_in_Cons drawing_Cons)
qed

lemma batch_discard_in:
  "\<forall>t \<in> set ts. trunkHeight t < maxTrunkHeight d \<Longrightarrow>
   (work_in ar ^^ length ts) (d\<lparr>trees := ts @ us\<rparr>, c) = (d\<lparr>trees := us\<rparr>, c) \<and>
   pushes_in ar (length ts) (d\<lparr>trees := ts @ us\<rparr>, c) = 0"
proof (induction ts)
  case Nil
  show ?case by simp
next
  case (Cons t ts)
  have front: "trunkHeight t < maxTrunkHeight (d\<lparr>trees := t # ts @ us\<rparr>)"
    using Cons.prems by simp
  have step: "work_in ar (d\<lparr>trees := t # ts @ us\<rparr>, c) = (d\<lparr>trees := ts @ us\<rparr>, c)"
    using work_in_discard [OF _ front, of "ts @ us" ar c] by simp
  have none: "pushed_in ar (d\<lparr>trees := t # ts @ us\<rparr>, c) = []"
    by (simp add: pushed_in_def step)
  show ?case using Cons by (simp add: funpow_swap1 step none)
qed

lemma funpow_work_in_empty: "trees d = [] \<Longrightarrow> (work_in ar ^^ n) (d, c) = (d, c)"
  by (induction n) (simp_all add: work_in_empty)

lemma pushes_in_add:
  "pushes_in ar (m + n) s = pushes_in ar m s + pushes_in ar n ((work_in ar ^^ m) s)"
  by (induction m arbitrary: s) (simp_all add: funpow_swap1)

lemma pushes_in_mono: "m \<le> n \<Longrightarrow> pushes_in ar m s \<le> pushes_in ar n s"
  using pushes_in_add [of ar m "n - m" s] by simp

lemma pushes_in_empty: "trees (fst s) = [] \<Longrightarrow> pushes_in ar n s = 0"
proof (induction n)
  case 0
  show ?case by simp
next
  case (Suc n)
  then have "work_in ar s = s" by (cases s) (simp add: work_in_empty)
  with Suc show ?case by (simp add: pushed_in_def)
qed

lemma drawing_upto_in_Suc:
  "drawing_upto_in ar (Suc g) t = drawing_upto_in ar g t @ drawing (generation_in ar g t)"
  by (simp add: drawing_upto_in_def)

text \<open>
  While no generation is below the threshold, the queue holds one whole generation after
  \<open>2 ^ g - 1\<close> ticks, and \<open>2 ^ Suc g - 2\<close> trees have been appended.
\<close>

lemma run_in_generations:
  assumes "\<forall>k < g. \<not> grown ar (trunkHeight t0) (branchRatio t0) k < maxTrunkHeight d"
  shows "(work_in ar ^^ (2 ^ g - 1)) (d\<lparr>trees := [t0]\<rparr>, c) =
           (d\<lparr>trees := generation_in ar g t0\<rparr>, c @ drawing_upto_in ar g t0) \<and>
         pushes_in ar (2 ^ g - 1) (d\<lparr>trees := [t0]\<rparr>, c) = 2 ^ Suc g - 2"
  using assms
proof (induction g)
  case 0
  show ?case by (simp add: drawing_upto_in_def)
next
  case (Suc g)
  let ?s = "(d\<lparr>trees := [t0]\<rparr>, c)"
  let ?q = "generation_in ar g t0"
  from Suc have IH: "(work_in ar ^^ (2 ^ g - 1)) ?s = (d\<lparr>trees := ?q\<rparr>, c @ drawing_upto_in ar g t0)"
    and IHp: "pushes_in ar (2 ^ g - 1) ?s = 2 ^ Suc g - 2"
    by simp_all
  have drawn: "\<forall>t \<in> set ?q. \<not> trunkHeight t < maxTrunkHeight d"
    using Suc.prems by (simp add: generation_in_fields)
  have split: "(2::nat) ^ Suc g - 1 = length ?q + (2 ^ g - 1)"
    and split': "(2::nat) ^ Suc g - 1 = (2 ^ g - 1) + length ?q"
    by (simp_all add: length_generation_in)
  note batch = batch_draw_in [OF drawn, of ar "[]" "c @ drawing_upto_in ar g t0", simplified append_Nil2 append_Nil]
  have "(work_in ar ^^ (2 ^ Suc g - 1)) ?s =
      (work_in ar ^^ length ?q) (d\<lparr>trees := ?q\<rparr>, c @ drawing_upto_in ar g t0)"
    by (simp only: split funpow_add o_apply IH)
  then have run: "(work_in ar ^^ (2 ^ Suc g - 1)) ?s =
      (d\<lparr>trees := generation_in ar (Suc g) t0\<rparr>, c @ drawing_upto_in ar (Suc g) t0)"
    using batch by (simp add: drawing_upto_in_Suc)
  have "pushes_in ar (2 ^ Suc g - 1) ?s = (2 ^ Suc g - 2) + 2 * length ?q"
    using batch by (simp only: split' pushes_in_add IH IHp)
  then have "pushes_in ar (2 ^ Suc g - 1) ?s = 2 ^ Suc (Suc g) - 2"
    by (simp add: length_generation_in)
  with run show ?case by simp
qed

text \<open>
  The first generation below the threshold is dropped whole, and the queue is empty.
\<close>

lemma run_in_stops:
  assumes "\<forall>k < g. \<not> grown ar (trunkHeight t0) (branchRatio t0) k < maxTrunkHeight d"
    and "grown ar (trunkHeight t0) (branchRatio t0) g < maxTrunkHeight d"
    and "2 ^ Suc g - 1 \<le> n"
  shows "(work_in ar ^^ n) (d\<lparr>trees := [t0]\<rparr>, c) = (d\<lparr>trees := []\<rparr>, c @ drawing_upto_in ar g t0)"
    and "pushes_in ar n (d\<lparr>trees := [t0]\<rparr>, c) = 2 ^ Suc g - 2"
proof -
  let ?s = "(d\<lparr>trees := [t0]\<rparr>, c)"
  let ?q = "generation_in ar g t0"
  let ?c = "c @ drawing_upto_in ar g t0"
  from run_in_generations [OF assms(1), of c]
  have at: "(work_in ar ^^ (2 ^ g - 1)) ?s = (d\<lparr>trees := ?q\<rparr>, ?c)"
    and atp: "pushes_in ar (2 ^ g - 1) ?s = 2 ^ Suc g - 2"
    by simp_all
  have dropped: "\<forall>t \<in> set ?q. trunkHeight t < maxTrunkHeight d"
    using assms(2) by (simp add: generation_in_fields)
  note batch = batch_discard_in [OF dropped, of ar "[]" ?c, simplified append_Nil2]
  define k where "k = n - (2 ^ Suc g - 1)"
  have n: "n = (2 ^ g - 1) + (length ?q + k)"
    using assms(3) by (simp add: k_def length_generation_in)
  obtain m where "(2::nat) ^ g = Suc m"
    using power_two_Suc [of g] by blast
  then have n': "n = k + (length ?q + (2 ^ g - 1))"
    using n by simp
  show "(work_in ar ^^ n) ?s = (d\<lparr>trees := []\<rparr>, ?c)"
    using batch by (simp only: n' funpow_add o_apply at) (simp add: funpow_work_in_empty)
  show "pushes_in ar n ?s = 2 ^ Suc g - 2"
    using batch by (simp only: n pushes_in_add at atp) (simp add: pushes_in_empty)
qed

lemma placed_in_stops:
  assumes "\<forall>k < g. \<not> grown ar (trunkHeight t0) (branchRatio t0) k < maxTrunkHeight d"
    and "grown ar (trunkHeight t0) (branchRatio t0) g < maxTrunkHeight d"
  shows "placed_in ar n (d\<lparr>trees := [t0]\<rparr>, c) \<le> 2 ^ Suc g - 1"
proof -
  let ?s = "(d\<lparr>trees := [t0]\<rparr>, c)"
  let ?m = "max n (2 ^ Suc g - 1)"
  have "pushes_in ar n ?s \<le> pushes_in ar ?m ?s"
    by (rule pushes_in_mono) simp
  also have "\<dots> = 2 ^ Suc g - 2"
    by (rule run_in_stops(2) [OF assms]) simp
  finally have "pushes_in ar n ?s \<le> 2 ^ Suc g - 2" .
  moreover obtain m where "(2::nat) ^ g = Suc m"
    using power_two_Suc [of g] by blast
  ultimately show ?thesis
    by (simp add: placed_in_def)
qed

lemma first_below:
  assumes "P (g::nat)"
  obtains k where "k \<le> g" and "P k" and "\<forall>j < k. \<not> P j"
proof -
  have "P (LEAST k. P k)" using assms by (rule LeastI)
  moreover have "(LEAST k. P k) \<le> g" using assms by (rule Least_le)
  moreover have "\<forall>j < (LEAST k. P k). \<not> P j" using not_less_Least by blast
  ultimately show thesis using that by blast
qed

lemma run_in_bounded:
  assumes "trees d = [t0]"
    and "grown ar (trunkHeight t0) (branchRatio t0) g < maxTrunkHeight d"
  shows "2 ^ Suc g - 1 \<le> n \<Longrightarrow> trees (fst ((work_in ar ^^ n) (d, c))) = []"
    and "placed_in ar n (d, c) \<le> 2 ^ Suc g - 1"
proof -
  have d: "d\<lparr>trees := [t0]\<rparr> = d"
    using assms(1) by (rule trees_update_same)
  from first_below [of "\<lambda>k. grown ar (trunkHeight t0) (branchRatio t0) k < maxTrunkHeight d", OF assms(2)]
  obtain k where k: "k \<le> g" and below: "grown ar (trunkHeight t0) (branchRatio t0) k < maxTrunkHeight d"
    and above: "\<forall>j < k. \<not> grown ar (trunkHeight t0) (branchRatio t0) j < maxTrunkHeight d"
    by blast
  have le: "(2::nat) ^ Suc k - 1 \<le> 2 ^ Suc g - 1"
    using k by (simp add: diff_le_mono)
  show "trees (fst ((work_in ar ^^ n) (d, c))) = []" if "2 ^ Suc g - 1 \<le> n"
    using run_in_stops(1) [OF above below, of n c] le that by (simp add: d)
  show "placed_in ar n (d, c) \<le> 2 ^ Suc g - 1"
    using placed_in_stops [OF above below, of n c] le by (simp add: d)
qed

section \<open>Painting\<close>

lemma paint_drawTree:
  "painted (foldl (paint cv) s (drawTree t [])) = painted s @ segments t"
  by (simp add: drawTree_def segments_def)

lemma paint_drawing:
  "painted (foldl (paint cv) s (drawing ts)) = painted s @ concat (map segments ts)"
proof (induction ts arbitrary: s)
  case Nil
  show ?case by (simp add: drawing_def)
next
  case (Cons t ts)
  show ?case
    using Cons [of "foldl (paint cv) s (drawTree t [])"]
    by (simp add: drawing_Cons paint_drawTree)
qed

lemma replay_drawTree:
  "painted (replay cv (drawTree t c)) = painted (replay cv c) @ segments t"
  using paint_drawTree [of cv "replay cv c" t]
  by (simp add: replay_def drawTree_append [of t c])

lemma replay_drawing:
  "painted (replay cv (c @ drawing ts)) = painted (replay cv c) @ concat (map segments ts)"
  by (simp add: replay_def paint_drawing)

lemma length_segments: "length (concat (map segments ts)) = 3 * length ts"
  by (induction ts) (simp_all add: segments_def)

lemma replay_drawing_upto:
  "painted (replay cv (c @ drawing_upto g t)) = painted (replay cv c) @ segments_upto g t"
proof (induction g)
  case 0
  show ?case by (simp add: drawing_upto_def segments_upto_def)
next
  case (Suc g)
  have "painted (replay cv ((c @ drawing_upto g t) @ drawing (generation g t))) =
      painted (replay cv (c @ drawing_upto g t)) @ concat (map segments (generation g t))"
    by (rule replay_drawing)
  with Suc show ?case
    by (simp add: drawing_upto_Suc segments_upto_def)
qed

lemma replay_drawing_upto_in:
  "painted (replay cv (c @ drawing_upto_in ar g t)) =
     painted (replay cv c) @ segments_upto_in ar g t"
proof (induction g)
  case 0
  show ?case by (simp add: drawing_upto_in_def segments_upto_in_def)
next
  case (Suc g)
  have "painted (replay cv ((c @ drawing_upto_in ar g t) @ drawing (generation_in ar g t))) =
      painted (replay cv (c @ drawing_upto_in ar g t)) @
      concat (map segments (generation_in ar g t))"
    by (rule replay_drawing)
  with Suc show ?case
    by (simp add: drawing_upto_in_Suc segments_upto_in_def)
qed

lemma length_segments_upto_in: "length (segments_upto_in ar g t) + 3 = 3 * 2 ^ g"
proof (induction g)
  case 0
  show ?case by (simp add: segments_upto_in_def)
next
  case (Suc g)
  have "segments_upto_in ar (Suc g) t =
      segments_upto_in ar g t @ concat (map segments (generation_in ar g t))"
    by (simp add: segments_upto_in_def)
  with Suc show ?case
    by (simp add: length_segments length_generation_in)
qed

lemma replay_empty: "painted (replay cv []) = []"
  by (simp add: replay_def surface0_def)

lemma length_segments_upto: "length (segments_upto g t) + 3 = 3 * 2 ^ g"
proof (induction g)
  case 0
  show ?case by (simp add: segments_upto_def)
next
  case (Suc g)
  have "segments_upto (Suc g) t = segments_upto g t @ concat (map segments (generation g t))"
    by (simp add: segments_upto_def)
  with Suc show ?case
    by (simp add: length_segments length_generation)
qed

text \<open>After \<open>retire\<close>, and so after \<open>stop\<close> with a director, nothing is painted.\<close>

lemma retire_erases:
  "a < length (store w) \<Longrightarrow>
   painted (replay (canvas (store w ! a)) (context2d (retire a w))) = []"
  by (auto simp: retire_def clearInterval_def Let_def replay_def split: option.split)

lemma stop_erases:
  "gardenDirector w = Ref a \<Longrightarrow> a < length (store w) \<Longrightarrow>
   painted (replay (canvas (store w ! a)) (context2d (stop w))) = []"
  using retire_erases [of a w] by (simp add: stop_def Let_def)

section \<open>Binary64\<close>

text \<open>
  How \<open>round64\<close> is evaluated: with the exponent of the argument at hand it is a division,
  a rounding to an integer and a multiplication. It keeps the sign, and it sends what is
  at most half the least subnormal number to 0.
\<close>

lemma floor_log2:
  assumes "2 powi e \<le> x" and "x < 2 powi (e + 1)"
  shows "\<lfloor>log 2 x\<rfloor> = e"
proof -
  have "(0::real) < 2 powi e" by simp
  with assms(1) have pos: "0 < x" by linarith
  have "(2::real) powr of_int e = 2 powi e" and "(2::real) powr of_int (e + 1) = 2 powi (e + 1)"
    by (rule powr_real_of_int'; simp)+
  with assms have "2 powr of_int e \<le> x" and "x < 2 powr of_int (e + 1)"
    by simp_all
  then have "of_int e \<le> log 2 x" and "log 2 x < of_int (e + 1)"
    using pos by (simp_all only: le_log_iff log_less_iff one_less_numeral_iff semiring_norm)
  then show ?thesis
    by (intro floor_unique) simp_all
qed

lemma round64_normal:
  assumes "2 powi e \<le> \<bar>x\<bar>" and "\<bar>x\<bar> < 2 powi (e + 1)" and "- 1022 \<le> e"
  shows "round64 x = of_int (rne (x / 2 powi (e - 52))) * 2 powi (e - 52)"
proof -
  have "(0::real) < 2 powi e" by simp
  with assms(1) have "0 < \<bar>x\<bar>" by linarith
  then have "x \<noteq> 0" by simp
  moreover have "ulp_exp x = e - 52"
    using floor_log2 [OF assms(1,2)] assms(3) by (simp add: ulp_exp_def)
  ultimately show ?thesis by (simp add: round64_def)
qed

lemma rne_nonneg: "0 \<le> y \<Longrightarrow> 0 \<le> rne y"
  by (simp add: rne_def Let_def)

lemma round64_nonneg: "0 \<le> x \<Longrightarrow> 0 \<le> round64 x"
  by (simp add: round64_def rne_nonneg)

lemma rne_half: "0 \<le> y \<Longrightarrow> y \<le> 1 / 2 \<Longrightarrow> rne y = 0"
proof -
  assume "0 \<le> y" and "y \<le> 1 / 2"
  then have "\<lfloor>y\<rfloor> = 0" by (intro floor_unique) simp_all
  with \<open>y \<le> 1 / 2\<close> show ?thesis by (auto simp: rne_def)
qed

lemma round64_underflow:
  assumes "0 \<le> x" and "x \<le> 2 powi (- 1075)"
  shows "round64 x = 0"
proof (cases "x = 0")
  case True
  then show ?thesis by (simp add: round64_def)
next
  case False
  with assms(1) have pos: "0 < x" by simp
  have "(2::real) powr of_int (- 1075) = 2 powi (- 1075)"
    by (rule powr_real_of_int'; simp)
  with assms(2) have "x \<le> 2 powr of_int (- 1075)" by simp
  then have "log 2 x \<le> of_int (- 1075)"
    using pos by (simp only: log_le_iff one_less_numeral_iff semiring_norm)
  then have "\<lfloor>log 2 x\<rfloor> \<le> - 1075"
    by (simp add: floor_le_iff)
  then have "max (\<lfloor>log 2 x\<rfloor> - 52) (- 1074) = - 1074"
    by arith
  then have u: "ulp_exp x = - 1074"
    unfolding ulp_exp_def abs_of_pos [OF pos] .
  have "(2::real) powi (- 1074 - 1) = 2 powi (- 1074) / 2 powi 1"
    by (rule power_int_diff) simp
  then have "(2::real) powi (- 1075) = 2 powi (- 1074) / 2"
    by (simp del: power_int_minus power_int_numeral)
  with assms(2) have "x / 2 powi (- 1074) \<le> 1 / 2"
    by (simp add: field_simps)
  moreover have "0 \<le> x / 2 powi (- 1074)"
    using assms(1) by simp
  ultimately have "rne (x / 2 powi (- 1074)) = 0"
    by (intro rne_half)
  then show ?thesis
    by (simp add: round64_def u)
qed

lemma r64: "round64 (7 / 10) = 3152519739159347 / 4503599627370496"
  by (subst round64_normal [of "- 1"]) (simp_all add: rne_def)

lemma grown_ieee_Suc: "grown ieee h r (Suc g) = round64 (grown ieee h r g * r)"
  by (simp add: ieee_def)

subsection \<open>The heights and the threshold of the two pages\<close>

text \<open>
  Every product of the two runs, rounded: the heights of generations 1 to 8, the seventh
  power of the ratio and the threshold.
\<close>

lemma grown_step:
  "grown ieee h r g = a \<Longrightarrow> round64 (a * r) = b \<Longrightarrow> grown ieee h r (Suc g) = b"
  by (simp add: ieee_def)

lemma round_scenario64_1: "round64 (100 * (3152519739159347 / 4503599627370496)) = 70"
  by (subst round64_normal [of 6]) (simp_all add: rne_def)

lemma round_scenario64_2: "round64 (70 * (3152519739159347 / 4503599627370496)) = 49"
  by (subst round64_normal [of 5]) (simp_all add: rne_def)

lemma round_scenario64_3: "round64 (49 * (3152519739159347 / 4503599627370496)) = 2413647925293875 / 70368744177664"
  by (subst round64_normal [of 5]) (simp_all add: rne_def)

lemma round_scenario64_4: "round64 ((2413647925293875 / 70368744177664) * (3152519739159347 / 4503599627370496)) = 3379107095411425 / 140737488355328"
  by (subst round64_normal [of 4]) (simp_all add: rne_def)

lemma round_scenario64_5: "round64 ((3379107095411425 / 140737488355328) * (3152519739159347 / 4503599627370496)) = 4730749933575995 / 281474976710656"
  by (subst round64_normal [of 4]) (simp_all add: rne_def)

lemma round_scenario64_6: "round64 ((4730749933575995 / 281474976710656) * (3152519739159347 / 4503599627370496)) = 6623049907006393 / 562949953421312"
  by (subst round64_normal [of 3]) (simp_all add: rne_def)

lemma round_scenario64_7: "round64 ((6623049907006393 / 562949953421312) * (3152519739159347 / 4503599627370496)) = 4636134934904475 / 562949953421312"
  by (subst round64_normal [of 3]) (simp_all add: rne_def)

lemma round_scenario64_8: "round64 ((4636134934904475 / 562949953421312) * (3152519739159347 / 4503599627370496)) = 6490588908866265 / 1125899906842624"
  by (subst round64_normal [of 2]) (simp_all add: rne_def)

lemma round_scenario64_pow: "round64 ((3152519739159347 / 4503599627370496) ^ 7) = 2967126358338863 / 36028797018963968"
  by (subst round64_normal [of "-4"]) (simp_all add: rne_def power_divide)

lemma round_scenario64_threshold: "round64 (100 * (2967126358338863 / 36028797018963968)) = 4636134934904473 / 562949953421312"
  by (subst round64_normal [of 3]) (simp_all add: rne_def)

lemma grown_scenario64_0: "grown ieee 100 (3152519739159347 / 4503599627370496) 0 = 100"
  by simp

lemma grown_scenario64_1: "grown ieee 100 (3152519739159347 / 4503599627370496) 1 = 70"
  using grown_step [OF grown_scenario64_0 round_scenario64_1] by (simp del: grown.simps add: eval_nat_numeral)

lemma grown_scenario64_2: "grown ieee 100 (3152519739159347 / 4503599627370496) 2 = 49"
  using grown_step [OF grown_scenario64_1 round_scenario64_2] by (simp del: grown.simps add: eval_nat_numeral)

lemma grown_scenario64_3: "grown ieee 100 (3152519739159347 / 4503599627370496) 3 = 2413647925293875 / 70368744177664"
  using grown_step [OF grown_scenario64_2 round_scenario64_3] by (simp del: grown.simps add: eval_nat_numeral)

lemma grown_scenario64_4: "grown ieee 100 (3152519739159347 / 4503599627370496) 4 = 3379107095411425 / 140737488355328"
  using grown_step [OF grown_scenario64_3 round_scenario64_4] by (simp del: grown.simps add: eval_nat_numeral)

lemma grown_scenario64_5: "grown ieee 100 (3152519739159347 / 4503599627370496) 5 = 4730749933575995 / 281474976710656"
  using grown_step [OF grown_scenario64_4 round_scenario64_5] by (simp del: grown.simps add: eval_nat_numeral)

lemma grown_scenario64_6: "grown ieee 100 (3152519739159347 / 4503599627370496) 6 = 6623049907006393 / 562949953421312"
  using grown_step [OF grown_scenario64_5 round_scenario64_6] by (simp del: grown.simps add: eval_nat_numeral)

lemma grown_scenario64_7: "grown ieee 100 (3152519739159347 / 4503599627370496) 7 = 4636134934904475 / 562949953421312"
  using grown_step [OF grown_scenario64_6 round_scenario64_7] by (simp del: grown.simps add: eval_nat_numeral)

lemma grown_scenario64_8: "grown ieee 100 (3152519739159347 / 4503599627370496) 8 = 6490588908866265 / 1125899906842624"
  using grown_step [OF grown_scenario64_7 round_scenario64_8] by (simp del: grown.simps add: eval_nat_numeral)

lemma threshold_scenario64:
  "ar_mul ieee 100 (ar_pow ieee (3152519739159347 / 4503599627370496) 7) = 4636134934904473 / 562949953421312"
  by (simp only: ieee_def Arith.simps round_scenario64_pow round_scenario64_threshold)

lemma round_ratio65_1: "round64 (100 * (5854679515581645 / 9007199254740992)) = 65"
  by (subst round64_normal [of 6]) (simp_all add: rne_def)

lemma round_ratio65_2: "round64 (65 * (5854679515581645 / 9007199254740992)) = 169 / 4"
  by (subst round64_normal [of 5]) (simp_all add: rne_def)

lemma round_ratio65_3: "round64 ((169 / 4) * (5854679515581645 / 9007199254740992)) = 7730006547916391 / 281474976710656"
  by (subst round64_normal [of 4]) (simp_all add: rne_def)

lemma round_ratio65_4: "round64 ((7730006547916391 / 281474976710656) * (5854679515581645 / 9007199254740992)) = 2512252128072827 / 140737488355328"
  by (subst round64_normal [of 4]) (simp_all add: rne_def)

lemma round_ratio65_5: "round64 ((2512252128072827 / 140737488355328) * (5854679515581645 / 9007199254740992)) = 3265927766494675 / 281474976710656"
  by (subst round64_normal [of 3]) (simp_all add: rne_def)

lemma round_ratio65_6: "round64 ((3265927766494675 / 281474976710656) * (5854679515581645 / 9007199254740992)) = 8491412192886155 / 1125899906842624"
  by (subst round64_normal [of 2]) (simp_all add: rne_def)

lemma round_ratio65_7: "round64 ((8491412192886155 / 1125899906842624) * (5854679515581645 / 9007199254740992)) = 5519417925376001 / 1125899906842624"
  by (subst round64_normal [of 2]) (simp_all add: rne_def)

lemma round_ratio65_8: "round64 ((5519417925376001 / 1125899906842624) * (5854679515581645 / 9007199254740992)) = 3587621651494401 / 1125899906842624"
  by (subst round64_normal [of 1]) (simp_all add: rne_def)

lemma round_ratio65_pow: "round64 ((5854679515581645 / 9007199254740992) ^ 7) = 7064854944481283 / 144115188075855872"
  by (subst round64_normal [of "-5"]) (simp_all add: rne_def power_divide)

lemma round_ratio65_threshold: "round64 (100 * (7064854944481283 / 144115188075855872)) = 2759708962688001 / 562949953421312"
  by (subst round64_normal [of 2]) (simp_all add: rne_def)

lemma grown_ratio65_0: "grown ieee 100 (5854679515581645 / 9007199254740992) 0 = 100"
  by simp

lemma grown_ratio65_1: "grown ieee 100 (5854679515581645 / 9007199254740992) 1 = 65"
  using grown_step [OF grown_ratio65_0 round_ratio65_1] by (simp del: grown.simps add: eval_nat_numeral)

lemma grown_ratio65_2: "grown ieee 100 (5854679515581645 / 9007199254740992) 2 = 169 / 4"
  using grown_step [OF grown_ratio65_1 round_ratio65_2] by (simp del: grown.simps add: eval_nat_numeral)

lemma grown_ratio65_3: "grown ieee 100 (5854679515581645 / 9007199254740992) 3 = 7730006547916391 / 281474976710656"
  using grown_step [OF grown_ratio65_2 round_ratio65_3] by (simp del: grown.simps add: eval_nat_numeral)

lemma grown_ratio65_4: "grown ieee 100 (5854679515581645 / 9007199254740992) 4 = 2512252128072827 / 140737488355328"
  using grown_step [OF grown_ratio65_3 round_ratio65_4] by (simp del: grown.simps add: eval_nat_numeral)

lemma grown_ratio65_5: "grown ieee 100 (5854679515581645 / 9007199254740992) 5 = 3265927766494675 / 281474976710656"
  using grown_step [OF grown_ratio65_4 round_ratio65_5] by (simp del: grown.simps add: eval_nat_numeral)

lemma grown_ratio65_6: "grown ieee 100 (5854679515581645 / 9007199254740992) 6 = 8491412192886155 / 1125899906842624"
  using grown_step [OF grown_ratio65_5 round_ratio65_6] by (simp del: grown.simps add: eval_nat_numeral)

lemma grown_ratio65_7: "grown ieee 100 (5854679515581645 / 9007199254740992) 7 = 5519417925376001 / 1125899906842624"
  using grown_step [OF grown_ratio65_6 round_ratio65_7] by (simp del: grown.simps add: eval_nat_numeral)

lemma grown_ratio65_8: "grown ieee 100 (5854679515581645 / 9007199254740992) 8 = 3587621651494401 / 1125899906842624"
  using grown_step [OF grown_ratio65_7 round_ratio65_8] by (simp del: grown.simps add: eval_nat_numeral)

lemma threshold_ratio65:
  "ar_mul ieee 100 (ar_pow ieee (5854679515581645 / 9007199254740992) 7) = 2759708962688001 / 562949953421312"
  by (simp only: ieee_def Arith.simps round_ratio65_pow round_ratio65_threshold)

section \<open>The scenario in binary64\<close>

lemma scenario64_director:
  "GardenDirector_new_in ieee scenario64 =
     \<lparr>canvas = \<lparr>width = 200, height = 1250 / 11\<rparr>, trees = [scenario64_root],
      maxTrunkHeight = 4636134934904473 / 562949953421312, timerId = None\<rparr>"
proof -
  have "maxTrunkHeight (GardenDirector_new_in ieee scenario64) =
      ar_mul ieee 100 (ar_pow ieee (3152519739159347 / 4503599627370496) 7)"
    by (simp add: GardenDirector_new_in_def GardenSpec_new_def scenario64_def Let_def)
  then have "maxTrunkHeight (GardenDirector_new_in ieee scenario64) =
      4636134934904473 / 562949953421312"
    by (simp only: threshold_scenario64)
  moreover have "canvas (GardenDirector_new_in ieee scenario64) = \<lparr>width = 200, height = 1250 / 11\<rparr>"
    and "trees (GardenDirector_new_in ieee scenario64) = [scenario64_root]"
    and "timerId (GardenDirector_new_in ieee scenario64) = None"
    by (simp_all add: GardenDirector_new_in_def GardenSpec_new_def scenario64_def
        scenario64_root_def Let_def)
  ultimately show ?thesis
    by (cases "GardenDirector_new_in ieee scenario64") simp
qed

lemma scenario64_fields:
  "trunkHeight scenario64_root = 100"
  "branchRatio scenario64_root = 3152519739159347 / 4503599627370496"
  "maxTrunkHeight (GardenDirector_new_in ieee scenario64) = 4636134934904473 / 562949953421312"
  "trees (GardenDirector_new_in ieee scenario64) = [scenario64_root]"
  by (simp_all add: scenario64_director) (simp_all add: scenario64_root_def)

lemma scenario64_not_below:
  "\<not> grown ieee 100 (3152519739159347 / 4503599627370496) 0 < 4636134934904473 / 562949953421312"
  "\<not> grown ieee 100 (3152519739159347 / 4503599627370496) 1 < 4636134934904473 / 562949953421312"
  "\<not> grown ieee 100 (3152519739159347 / 4503599627370496) 2 < 4636134934904473 / 562949953421312"
  "\<not> grown ieee 100 (3152519739159347 / 4503599627370496) 3 < 4636134934904473 / 562949953421312"
  "\<not> grown ieee 100 (3152519739159347 / 4503599627370496) 4 < 4636134934904473 / 562949953421312"
  "\<not> grown ieee 100 (3152519739159347 / 4503599627370496) 5 < 4636134934904473 / 562949953421312"
  "\<not> grown ieee 100 (3152519739159347 / 4503599627370496) 6 < 4636134934904473 / 562949953421312"
  "\<not> grown ieee 100 (3152519739159347 / 4503599627370496) 7 < 4636134934904473 / 562949953421312"
  by (simp_all add: grown_scenario64_1 [unfolded One_nat_def] grown_scenario64_2 grown_scenario64_3 grown_scenario64_4
      grown_scenario64_5 grown_scenario64_6 grown_scenario64_7 del: grown.simps(2))

lemma scenario64_drawn:
  "k < 8 \<Longrightarrow>
   \<not> grown ieee (trunkHeight scenario64_root) (branchRatio scenario64_root) k <
     maxTrunkHeight (GardenDirector_new_in ieee scenario64)"
proof -
  assume "k < 8"
  then consider "k = 0" | "k = 1" | "k = 2" | "k = 3" | "k = 4" | "k = 5" | "k = 6" | "k = 7"
    by linarith
  then show ?thesis
    unfolding scenario64_fields
    by cases (simp_all only: scenario64_not_below not_False_eq_True)
qed

lemma scenario64_dropped:
  "grown ieee (trunkHeight scenario64_root) (branchRatio scenario64_root) 8 <
     maxTrunkHeight (GardenDirector_new_in ieee scenario64)"
  unfolding scenario64_fields by (simp add: grown_scenario64_8 del: grown.simps(2))

text \<open>
  The power of the runtime need not be correctly rounded. With either neighbour of the
  correctly rounded power the threshold is the same or one unit in the last place higher,
  and the comparisons with generations 7 and 8 come out the same.
\<close>

lemma scenario64_power_neighbours:
  "round64 (100 * (5934252716677725 / 72057594037927936)) = 4636134934904473 / 562949953421312"
  "round64 (100 * (5934252716677727 / 72057594037927936)) = 2318067467452237 / 281474976710656"
  "\<not> grown ieee 100 (3152519739159347 / 4503599627370496) 7 < 2318067467452237 / 281474976710656"
  "grown ieee 100 (3152519739159347 / 4503599627370496) 8 < 2318067467452237 / 281474976710656"
proof -
  show "round64 (100 * (5934252716677725 / 72057594037927936)) =
      4636134934904473 / 562949953421312"
    by (subst round64_normal [of 3]) (simp_all add: rne_def)
  show "round64 (100 * (5934252716677727 / 72057594037927936)) =
      2318067467452237 / 281474976710656"
    by (subst round64_normal [of 3]) (simp_all add: rne_def)
  show "\<not> grown ieee 100 (3152519739159347 / 4503599627370496) 7 < 2318067467452237 / 281474976710656"
    by (simp add: grown_scenario64_7 del: grown.simps(2))
  show "grown ieee 100 (3152519739159347 / 4503599627370496) 8 < 2318067467452237 / 281474976710656"
    by (simp add: grown_scenario64_8 del: grown.simps(2))
qed

lemma run_in_from_root:
  assumes "trees d = [t0]"
    and "\<forall>k < g. \<not> grown ar (trunkHeight t0) (branchRatio t0) k < maxTrunkHeight d"
  shows "(work_in ar ^^ (2 ^ g - 1)) (d, c) =
           (d\<lparr>trees := generation_in ar g t0\<rparr>, c @ drawing_upto_in ar g t0)"
    and "grown ar (trunkHeight t0) (branchRatio t0) g < maxTrunkHeight d \<Longrightarrow>
         2 ^ Suc g - 1 \<le> n \<Longrightarrow>
         (work_in ar ^^ n) (d, c) = (d\<lparr>trees := []\<rparr>, c @ drawing_upto_in ar g t0)"
  using run_in_generations [OF assms(2), of c] run_in_stops(1) [OF assms(2), of n c]
    trees_update_same [OF assms(1)]
  by simp_all

text \<open>
  C1, as the program has it: for the scenario (\<open>trunkHeight = 100\<close>, \<open>branchRatio = 0.7\<close>,
  \<open>branchAngle = pi/6\<close>, incline 0, root at (100, 100)), in binary64, the threshold is
  \<open>100 * 0.7 ** 7\<close>, within \<open>10 ^ - 14\<close> of \<open>100 * 0.7 ^ 7\<close>; the first 255 ticks draw exactly
  the trees of generations 0 to 7, in breadth-first order, three strokes each, and leave
  the 256 trees of generation 8 in the queue; the next 256 ticks drop these without
  drawing and without appending anything.
\<close>

theorem C1_scenario:
  "trees (GardenDirector_new_in ieee scenario64) = [scenario64_root] \<and>
   maxTrunkHeight (GardenDirector_new_in ieee scenario64) =
     ar_mul ieee 100 (ar_pow ieee (round64 (7 / 10)) 7) \<and>
   \<bar>maxTrunkHeight (GardenDirector_new_in ieee scenario64) - 100 * (7 / 10) ^ 7\<bar> < 1 / 10 ^ 14 \<and>
   (work_in ieee ^^ 255) (GardenDirector_new_in ieee scenario64, []) =
     ((GardenDirector_new_in ieee scenario64)\<lparr>trees := generation_in ieee 8 scenario64_root\<rparr>,
      drawing_upto_in ieee 8 scenario64_root) \<and>
   (work_in ieee ^^ 511) (GardenDirector_new_in ieee scenario64, []) =
     ((GardenDirector_new_in ieee scenario64)\<lparr>trees := []\<rparr>,
      drawing_upto_in ieee 8 scenario64_root) \<and>
   painted (replay cv (snd ((work_in ieee ^^ 511) (GardenDirector_new_in ieee scenario64, [])))) =
     segments_upto_in ieee 8 scenario64_root \<and>
   length (segments_upto_in ieee 8 scenario64_root) = 3 * 255"
proof -
  let ?D = "GardenDirector_new_in ieee scenario64"
  have drawn: "\<forall>k < 8. \<not> grown ieee (trunkHeight scenario64_root) (branchRatio scenario64_root) k
      < maxTrunkHeight ?D"
    using scenario64_drawn by blast
  have "(work_in ieee ^^ (2 ^ 8 - 1)) (?D, []) =
      (?D\<lparr>trees := generation_in ieee 8 scenario64_root\<rparr>,
       [] @ drawing_upto_in ieee 8 scenario64_root)"
    by (rule run_in_from_root(1) [OF scenario64_fields(4) drawn])
  then have a: "(work_in ieee ^^ 255) (?D, []) =
      (?D\<lparr>trees := generation_in ieee 8 scenario64_root\<rparr>, drawing_upto_in ieee 8 scenario64_root)"
    by simp
  have "(work_in ieee ^^ 511) (?D, []) =
      (?D\<lparr>trees := []\<rparr>, [] @ drawing_upto_in ieee 8 scenario64_root)"
    by (rule run_in_from_root(2) [OF scenario64_fields(4) drawn scenario64_dropped]) simp
  then have b: "(work_in ieee ^^ 511) (?D, []) =
      (?D\<lparr>trees := []\<rparr>, drawing_upto_in ieee 8 scenario64_root)"
    by simp
  have c: "painted (replay cv (drawing_upto_in ieee 8 scenario64_root)) =
      segments_upto_in ieee 8 scenario64_root"
    using replay_drawing_upto_in [of cv "[]" ieee 8 scenario64_root] by (simp add: replay_empty)
  have d: "length (segments_upto_in ieee 8 scenario64_root) = 3 * 255"
    using length_segments_upto_in [of ieee 8 scenario64_root] by simp
  have e: "maxTrunkHeight ?D = ar_mul ieee 100 (ar_pow ieee (round64 (7 / 10)) 7)"
    by (simp only: r64 threshold_scenario64 scenario64_fields)
  have f: "\<bar>maxTrunkHeight ?D - 100 * (7 / 10) ^ 7\<bar> < 1 / 10 ^ 14"
    by (simp add: scenario64_fields power_divide)
  show ?thesis
    using a b c d e f scenario64_fields(4) by simp
qed

text \<open>
  In binary64 too, a tree of generation 7 is at the front after 127 ticks, and the next
  tick draws it and appends its two children.
\<close>

lemma scenario64_generation_7_drawn:
  "hd (trees (fst ((work_in ieee ^^ 127) (GardenDirector_new_in ieee scenario64, [])))) \<in>
     set (generation_in ieee 7 scenario64_root) \<and>
   snd ((work_in ieee ^^ 128) (GardenDirector_new_in ieee scenario64, [])) =
     snd ((work_in ieee ^^ 127) (GardenDirector_new_in ieee scenario64, [])) @
     drawTree (hd (generation_in ieee 7 scenario64_root)) [] \<and>
   length (trees (fst ((work_in ieee ^^ 128) (GardenDirector_new_in ieee scenario64, [])))) =
     length (trees (fst ((work_in ieee ^^ 127) (GardenDirector_new_in ieee scenario64, [])))) + 1"
proof -
  let ?D = "GardenDirector_new_in ieee scenario64"
  have drawn: "\<forall>k < 7. \<not> grown ieee (trunkHeight scenario64_root) (branchRatio scenario64_root) k
      < maxTrunkHeight ?D"
    using scenario64_drawn by simp
  have "(work_in ieee ^^ (2 ^ 7 - 1)) (?D, []) =
      (?D\<lparr>trees := generation_in ieee 7 scenario64_root\<rparr>,
       [] @ drawing_upto_in ieee 7 scenario64_root)"
    by (rule run_in_from_root(1) [OF scenario64_fields(4) drawn])
  then have at127: "(work_in ieee ^^ 127) (?D, []) =
      (?D\<lparr>trees := generation_in ieee 7 scenario64_root\<rparr>, drawing_upto_in ieee 7 scenario64_root)"
    by simp
  obtain t rest where q: "generation_in ieee 7 scenario64_root = t # rest"
    using length_generation_in [of ieee 7 scenario64_root]
    by (cases "generation_in ieee 7 scenario64_root") auto
  then have t: "t \<in> set (generation_in ieee 7 scenario64_root)"
    by simp
  have "\<not> trunkHeight t < maxTrunkHeight ?D"
    using generation_in_fields [OF t] scenario64_drawn [of 7] by simp
  then have step: "work_in ieee (?D\<lparr>trees := generation_in ieee 7 scenario64_root\<rparr>,
        drawing_upto_in ieee 7 scenario64_root) =
      (?D\<lparr>trees := rest @ [leftChild_in ieee t, rightChild_in ieee t]\<rparr>,
       drawTree t (drawing_upto_in ieee 7 scenario64_root))"
    using work_in_draw [of "?D\<lparr>trees := generation_in ieee 7 scenario64_root\<rparr>" t rest] q
    by simp
  have "(work_in ieee ^^ 128) (?D, []) = work_in ieee ((work_in ieee ^^ 127) (?D, []))"
    by (simp add: numeral_eq_Suc)
  then show ?thesis
    using at127 step q drawTree_append [of t "drawing_upto_in ieee 7 scenario64_root"]
    by simp
qed

section \<open>Termination in any arithmetic\<close>

lemma director_in_root:
  "trees (GardenDirector_new_in ar doc) = initialTrees (GardenSpec_new doc)"
  "trunkHeight (hd (initialTrees (GardenSpec_new doc))) = trunk_height doc"
  "branchRatio (hd (initialTrees (GardenSpec_new doc))) = branch_ratio doc"
  "initialTrees (GardenSpec_new doc) = [hd (initialTrees (GardenSpec_new doc))]"
  "maxTrunkHeight (GardenDirector_new_in ar doc) =
     ar_mul ar (trunk_height doc) (ar_pow ar (branch_ratio doc) 7)"
  by (simp_all add: GardenDirector_new_in_def GardenSpec_new_def Let_def)

lemma exact_generation_8_below:
  assumes "0 < h" and "0 < r" and "r < 1"
  shows "grown exact h r 8 < ar_mul exact h (ar_pow exact r 7)"
proof -
  have "r ^ 8 < r ^ 7"
    using assms by (intro power_strict_decreasing) simp_all
  then show ?thesis
    using assms(1) by (simp add: exact_grown) (simp add: exact_def)
qed

text \<open>
  C2, as the program has it: in any arithmetic, when the height computed for generation 8
  is below the threshold, the queue is empty from tick \<open>2 ^ 9 - 1\<close> on and at most
  \<open>2 ^ 9 - 1\<close> trees are ever placed on it (generations 0 to 8). In exact arithmetic the
  condition holds for every positive \<open>trunkHeight\<close> and every \<open>branchRatio\<close> in (0, 1).
\<close>

theorem C2_termination:
  "(trees d = [t0] \<and> grown ar (trunkHeight t0) (branchRatio t0) 8 < maxTrunkHeight d \<longrightarrow>
      (2 ^ 9 - 1 \<le> n \<longrightarrow> trees (fst ((work_in ar ^^ n) (d, c))) = []) \<and>
      placed_in ar n (d, c) \<le> 2 ^ 9 - 1) \<and>
   (0 < trunk_height doc \<and> 0 < branch_ratio doc \<and> branch_ratio doc < 1 \<longrightarrow>
      grown exact (trunk_height doc) (branch_ratio doc) 8 <
        maxTrunkHeight (GardenDirector_new_in exact doc) \<and>
      (2 ^ 9 - 1 \<le> n \<longrightarrow>
         trees (fst ((work_in exact ^^ n) (GardenDirector_new_in exact doc, c))) = []) \<and>
      placed_in exact n (GardenDirector_new_in exact doc, c) \<le> 2 ^ 9 - 1)"
proof (intro conjI impI)
  assume a: "trees d = [t0] \<and> grown ar (trunkHeight t0) (branchRatio t0) 8 < maxTrunkHeight d"
  then have d: "trees d = [t0]"
    and below: "grown ar (trunkHeight t0) (branchRatio t0) 8 < maxTrunkHeight d"
    by simp_all
  show "placed_in ar n (d, c) \<le> 2 ^ 9 - 1"
    using run_in_bounded(2) [OF d below, of n c] by simp
  assume "2 ^ 9 - 1 \<le> n"
  then show "trees (fst ((work_in ar ^^ n) (d, c))) = []"
    using run_in_bounded(1) [OF d below, of n c] by simp
next
  let ?D = "GardenDirector_new_in exact doc"
  let ?t = "hd (initialTrees (GardenSpec_new doc))"
  assume "0 < trunk_height doc \<and> 0 < branch_ratio doc \<and> branch_ratio doc < 1"
  then have below: "grown exact (trunk_height doc) (branch_ratio doc) 8 < maxTrunkHeight ?D"
    using exact_generation_8_below [of "trunk_height doc" "branch_ratio doc"]
    by (simp add: director_in_root(5))
  then show "grown exact (trunk_height doc) (branch_ratio doc) 8 < maxTrunkHeight ?D" .
  have d: "trees ?D = [?t]"
    using director_in_root(1) [of exact doc] director_in_root(4) [of doc] by simp
  have below': "grown exact (trunkHeight ?t) (branchRatio ?t) 8 < maxTrunkHeight ?D"
    using below by (simp only: director_in_root(2,3))
  show "placed_in exact n (?D, c) \<le> 2 ^ 9 - 1"
    using run_in_bounded(2) [OF d below', of n c] by simp
  assume "2 ^ 9 - 1 \<le> n"
  then show "trees (fst ((work_in exact ^^ n) (?D, c))) = []"
    using run_in_bounded(1) [OF d below', of n c] by simp
qed

theorem C2_termination_witness:
  "trees (GardenDirector_new_in ieee scenario64) = [scenario64_root] \<and>
   grown ieee (trunkHeight scenario64_root) (branchRatio scenario64_root) 8 <
     maxTrunkHeight (GardenDirector_new_in ieee scenario64) \<and>
   trees (fst ((work_in ieee ^^ 511) (GardenDirector_new_in ieee scenario64, []))) = [] \<and>
   placed_in ieee 511 (GardenDirector_new_in ieee scenario64, []) \<le> 511 \<and>
   0 < trunk_height scenario \<and> 0 < branch_ratio scenario \<and> branch_ratio scenario < 1 \<and>
   trees (fst ((work_in exact ^^ 511) (GardenDirector_new_in exact scenario, []))) = [] \<and>
   placed_in exact 511 (GardenDirector_new_in exact scenario, []) \<le> 511"
  using C2_termination [of "GardenDirector_new_in ieee scenario64" scenario64_root ieee 511 "[]"
      scenario]
    scenario64_dropped scenario64_fields(4)
  by (simp add: scenario_def)

text \<open>
  In binary64 too, 511 trees have been placed on the queue of the scenario after 255
  ticks.
\<close>

lemma scenario64_placed:
  "placed_in ieee 255 (GardenDirector_new_in ieee scenario64, []) = 511"
proof -
  let ?D = "GardenDirector_new_in ieee scenario64"
  have drawn: "\<forall>k < 8. \<not> grown ieee (trunkHeight scenario64_root) (branchRatio scenario64_root) k
      < maxTrunkHeight ?D"
    using scenario64_drawn by blast
  have "pushes_in ieee (2 ^ 8 - 1) (?D\<lparr>trees := [scenario64_root]\<rparr>, []) = 2 ^ Suc 8 - 2"
    using run_in_generations [OF drawn, of "[]"] by blast
  then have "pushes_in ieee 255 (?D, []) = 510"
    using trees_update_same [OF scenario64_fields(4)] by simp
  then show ?thesis
    by (simp add: placed_in_def scenario64_fields(4))
qed

subsection \<open>When the run does not stop, and when it stops early\<close>

lemma never_stops_in:
  assumes "trees d = [t0]"
    and "\<forall>k. \<not> grown ar (trunkHeight t0) (branchRatio t0) k < maxTrunkHeight d"
  shows "trees (fst ((work_in ar ^^ n) (d, c))) \<noteq> []"
proof
  assume empty: "trees (fst ((work_in ar ^^ n) (d, c))) = []"
  obtain d' c' where s: "(work_in ar ^^ n) (d, c) = (d', c')"
    by (cases "(work_in ar ^^ n) (d, c)")
  with empty have d': "trees d' = []" by simp
  have "n < 2 ^ n" by (rule less_exp)
  define k where "k = 2 ^ n - 1 - n"
  have k: "2 ^ n - 1 = k + n"
    unfolding k_def using \<open>n < 2 ^ n\<close> by arith
  have "(work_in ar ^^ (2 ^ n - 1)) (d, c) = (d', c')"
    unfolding k funpow_add by (simp add: s funpow_work_in_empty [OF d'])
  moreover have "(work_in ar ^^ (2 ^ n - 1)) (d, c) =
      (d\<lparr>trees := generation_in ar n t0\<rparr>, c @ drawing_upto_in ar n t0)"
    by (rule run_in_from_root(1) [OF assms(1)]) (simp add: assms(2))
  ultimately have "generation_in ar n t0 = []"
    using d' by auto
  then have "length (generation_in ar n t0) = 0" by simp
  then show False by (simp add: length_generation_in)
qed

lemma grown_ieee_nonneg: "0 \<le> h \<Longrightarrow> 0 \<le> r \<Longrightarrow> 0 \<le> grown ieee h r k"
  by (induction k) (simp_all add: ieee_def round64_nonneg)

text \<open>
  In binary64 the power of a small ratio underflows to 0, the threshold is 0, no height is
  below it, and the queue grows for ever. This is so for every ratio up to \<open>2 ^ - 154\<close>,
  for instance \<open>1e-50\<close>.
\<close>

lemma ieee_underflow_never_stops:
  assumes "0 \<le> trunk_height doc" and "0 \<le> branch_ratio doc"
    and "branch_ratio doc ^ 7 \<le> 2 powi (- 1075)"
  shows "maxTrunkHeight (GardenDirector_new_in ieee doc) = 0"
    and "trees (fst ((work_in ieee ^^ n) (GardenDirector_new_in ieee doc, c))) \<noteq> []"
proof -
  let ?D = "GardenDirector_new_in ieee doc"
  let ?t = "hd (initialTrees (GardenSpec_new doc))"
  have "round64 (branch_ratio doc ^ 7) = 0"
    using assms(2,3) by (intro round64_underflow) simp_all
  then show zero: "maxTrunkHeight ?D = 0"
    by (simp add: director_in_root(5)) (simp add: ieee_def round64_def)
  have d: "trees ?D = [?t]"
    using director_in_root(1) [of ieee doc] director_in_root(4) [of doc] by simp
  have "\<forall>k. \<not> grown ieee (trunkHeight ?t) (branchRatio ?t) k < maxTrunkHeight ?D"
    using grown_ieee_nonneg [OF assms(1,2)] by (simp add: zero director_in_root(2,3) not_less)
  from never_stops_in [OF d this]
  show "trees (fst ((work_in ieee ^^ n) (?D, c))) \<noteq> []" .
qed

text \<open>
  At the ratio nearest to 0.65 the rounded height of generation 7 is below the rounded
  threshold: generations 0 to 6 are drawn, the queue is empty after 255 ticks and 255
  trees have been placed.
\<close>

lemma ratio65_not_below:
  "\<not> grown ieee 100 (5854679515581645 / 9007199254740992) 0 < 2759708962688001 / 562949953421312"
  "\<not> grown ieee 100 (5854679515581645 / 9007199254740992) 1 < 2759708962688001 / 562949953421312"
  "\<not> grown ieee 100 (5854679515581645 / 9007199254740992) 2 < 2759708962688001 / 562949953421312"
  "\<not> grown ieee 100 (5854679515581645 / 9007199254740992) 3 < 2759708962688001 / 562949953421312"
  "\<not> grown ieee 100 (5854679515581645 / 9007199254740992) 4 < 2759708962688001 / 562949953421312"
  "\<not> grown ieee 100 (5854679515581645 / 9007199254740992) 5 < 2759708962688001 / 562949953421312"
  "\<not> grown ieee 100 (5854679515581645 / 9007199254740992) 6 < 2759708962688001 / 562949953421312"
  "grown ieee 100 (5854679515581645 / 9007199254740992) 7 < 2759708962688001 / 562949953421312"
  by (simp_all add: grown_ratio65_1 [unfolded One_nat_def] grown_ratio65_2 grown_ratio65_3
      grown_ratio65_4 grown_ratio65_5 grown_ratio65_6 grown_ratio65_7 del: grown.simps(2))

lemma ratio65_stops_early:
  "maxTrunkHeight (GardenDirector_new_in ieee ratio65) = 2759708962688001 / 562949953421312"
  "255 \<le> n \<Longrightarrow> trees (fst ((work_in ieee ^^ n) (GardenDirector_new_in ieee ratio65, c))) = []"
  "placed_in ieee n (GardenDirector_new_in ieee ratio65, c) \<le> 255"
proof -
  let ?D = "GardenDirector_new_in ieee ratio65"
  let ?t = "hd (initialTrees (GardenSpec_new ratio65))"
  have t: "trunkHeight ?t = 100" "branchRatio ?t = 5854679515581645 / 9007199254740992"
    by (simp_all add: director_in_root(2,3)) (simp_all add: ratio65_def)
  have "maxTrunkHeight ?D = ar_mul ieee 100 (ar_pow ieee (5854679515581645 / 9007199254740992) 7)"
    by (simp add: director_in_root(5)) (simp add: ratio65_def)
  then show T: "maxTrunkHeight ?D = 2759708962688001 / 562949953421312"
    by (simp only: threshold_ratio65)
  have d: "trees ?D = [?t]"
    using director_in_root(1) [of ieee ratio65] director_in_root(4) [of ratio65] by simp
  have above: "\<forall>k < 7. \<not> grown ieee (trunkHeight ?t) (branchRatio ?t) k < maxTrunkHeight ?D"
  proof (intro allI impI)
    fix k :: nat
    assume "k < 7"
    then consider "k = 0" | "k = 1" | "k = 2" | "k = 3" | "k = 4" | "k = 5" | "k = 6"
      by linarith
    then show "\<not> grown ieee (trunkHeight ?t) (branchRatio ?t) k < maxTrunkHeight ?D"
      unfolding t T by cases (simp_all only: ratio65_not_below not_False_eq_True)
  qed
  have below: "grown ieee (trunkHeight ?t) (branchRatio ?t) 7 < maxTrunkHeight ?D"
    unfolding t T by (rule ratio65_not_below(8))
  have "(work_in ieee ^^ n) (?D\<lparr>trees := [?t]\<rparr>, c) =
      (?D\<lparr>trees := []\<rparr>, c @ drawing_upto_in ieee 7 ?t)" if "255 \<le> n"
    by (rule run_in_stops(1) [OF above below]) (simp add: that)
  then show "trees (fst ((work_in ieee ^^ n) (?D, c))) = []" if "255 \<le> n"
    using that trees_update_same [OF d] by simp
  show "placed_in ieee n (?D, c) \<le> 255"
    using placed_in_stops [OF above below, of n c] trees_update_same [OF d] by simp
qed

section \<open>The strict comparison\<close>

text \<open>
  C9: the comparison with the threshold is strict. A front tree whose \<open>trunkHeight\<close>
  equals the threshold is drawn (its three strokes are painted) and its two children are
  appended. In exact arithmetic, from a single root of positive \<open>trunkHeight\<close> and a
  \<open>branchRatio\<close> in (0, 1), the trees of generation 7 have exactly the threshold's height:
  ticks 128 to 255 paint their 384 strokes, and the trees of generation 8 are the only
  ones dropped.
\<close>

theorem C9_strict_cutoff:
  "(trees d = t # rest \<and> trunkHeight t = maxTrunkHeight d \<longrightarrow>
      work (d, c) = (planNextTrees t (d\<lparr>trees := rest\<rparr>), drawTree t c) \<and>
      length (trees (planNextTrees t (d\<lparr>trees := rest\<rparr>))) = length rest + 2 \<and>
      painted (replay cv (snd (work (d, c)))) =
        painted (replay cv c) @
        [(''#333344'', p0 t, p1 t), (''#333344'', p1 t, p2 t), (''#AA3340'', p1 t, p3 t)]) \<and>
   (trees d0 = [t0] \<and> maxTrunkHeight d0 = trunkHeight t0 * branchRatio t0 ^ 7 \<and>
    0 < trunkHeight t0 \<and> 0 < branchRatio t0 \<and> branchRatio t0 < 1 \<longrightarrow>
      (\<forall>u \<in> set (generation 7 t0). trunkHeight u = maxTrunkHeight d0) \<and>
      (work ^^ 127) (d0, c0) = (d0\<lparr>trees := generation 7 t0\<rparr>, c0 @ drawing_upto 7 t0) \<and>
      (work ^^ 255) (d0, c0) =
        (d0\<lparr>trees := generation 8 t0\<rparr>, c0 @ drawing_upto 7 t0 @ drawing (generation 7 t0)) \<and>
      (work ^^ 511) (d0, c0) =
        (d0\<lparr>trees := []\<rparr>, c0 @ drawing_upto 7 t0 @ drawing (generation 7 t0)) \<and>
      painted (replay cv (snd ((work ^^ 127) (d0, c0)))) =
        painted (replay cv c0) @ segments_upto 7 t0 \<and>
      painted (replay cv (snd ((work ^^ 255) (d0, c0)))) =
        painted (replay cv c0) @ segments_upto 7 t0 @ concat (map segments (generation 7 t0)) \<and>
      painted (replay cv (snd ((work ^^ 511) (d0, c0)))) =
        painted (replay cv c0) @ segments_upto 7 t0 @ concat (map segments (generation 7 t0)) \<and>
      length (concat (map segments (generation 7 t0))) = 3 * 128)"
proof (intro conjI impI)
  assume a: "trees d = t # rest \<and> trunkHeight t = maxTrunkHeight d"
  then show w: "work (d, c) = (planNextTrees t (d\<lparr>trees := rest\<rparr>), drawTree t c)"
    by (simp add: work_def)
  show "painted (replay cv (snd (work (d, c)))) =
      painted (replay cv c) @
      [(''#333344'', p0 t, p1 t), (''#333344'', p1 t, p2 t), (''#AA3340'', p1 t, p3 t)]"
    using replay_drawTree [of cv t c] by (simp add: w segments_def)
next
  show "length (trees (planNextTrees t (d\<lparr>trees := rest\<rparr>))) = length rest + 2"
    by (simp add: planNextTrees_children)
next
  assume a: "trees d0 = [t0] \<and> maxTrunkHeight d0 = trunkHeight t0 * branchRatio t0 ^ 7 \<and>
    0 < trunkHeight t0 \<and> 0 < branchRatio t0 \<and> branchRatio t0 < 1"
  then show "\<forall>u \<in> set (generation 7 t0). trunkHeight u = maxTrunkHeight d0"
    by (simp add: generation_fields)
  from a have "(work ^^ (2 ^ 7 - 1)) (d0, c0) = (d0\<lparr>trees := generation 7 t0\<rparr>, c0 @ drawing_upto 7 t0)"
    by (intro run_from_root) simp_all
  then show r127: "(work ^^ 127) (d0, c0) = (d0\<lparr>trees := generation 7 t0\<rparr>, c0 @ drawing_upto 7 t0)"
    by simp
  have up: "drawing_upto 8 t0 = drawing_upto 7 t0 @ drawing (generation 7 t0)"
    using drawing_upto_Suc [of 7 t0] by (simp add: numeral_eq_Suc)
  from a have "(work ^^ (2 ^ 8 - 1)) (d0, c0) = (d0\<lparr>trees := generation 8 t0\<rparr>, c0 @ drawing_upto 8 t0)"
    by (intro run_from_root) simp_all
  then show r255: "(work ^^ 255) (d0, c0) =
      (d0\<lparr>trees := generation 8 t0\<rparr>, c0 @ drawing_upto 7 t0 @ drawing (generation 7 t0))"
    by (simp add: up)
  from a have "(work ^^ 511) (d0, c0) = (d0\<lparr>trees := []\<rparr>, c0 @ drawing_upto 8 t0)"
    by (intro run_to_end) simp_all
  then show r511: "(work ^^ 511) (d0, c0) =
      (d0\<lparr>trees := []\<rparr>, c0 @ drawing_upto 7 t0 @ drawing (generation 7 t0))"
    by (simp add: up)
  show p127: "painted (replay cv (snd ((work ^^ 127) (d0, c0)))) =
      painted (replay cv c0) @ segments_upto 7 t0"
    by (simp add: r127 replay_drawing_upto)
  have "painted (replay cv ((c0 @ drawing_upto 7 t0) @ drawing (generation 7 t0))) =
      painted (replay cv (c0 @ drawing_upto 7 t0)) @ concat (map segments (generation 7 t0))"
    by (rule replay_drawing)
  then have both: "painted (replay cv (c0 @ drawing_upto 7 t0 @ drawing (generation 7 t0))) =
      painted (replay cv c0) @ segments_upto 7 t0 @ concat (map segments (generation 7 t0))"
    by (simp add: replay_drawing_upto)
  show "painted (replay cv (snd ((work ^^ 255) (d0, c0)))) =
      painted (replay cv c0) @ segments_upto 7 t0 @ concat (map segments (generation 7 t0))"
    by (simp add: r255 both)
  show "painted (replay cv (snd ((work ^^ 511) (d0, c0)))) =
      painted (replay cv c0) @ segments_upto 7 t0 @ concat (map segments (generation 7 t0))"
    by (simp add: r511 both)
  show "length (concat (map segments (generation 7 t0))) = 3 * 128"
    by (simp add: length_segments length_generation)
qed

theorem C9_strict_cutoff_witness:
  "trees (small_garden\<lparr>trees := [scenario_root\<lparr>trunkHeight := 10\<rparr>]\<rparr>) =
     [scenario_root\<lparr>trunkHeight := 10\<rparr>] \<and>
   trunkHeight (scenario_root\<lparr>trunkHeight := 10\<rparr>) =
     maxTrunkHeight (small_garden\<lparr>trees := [scenario_root\<lparr>trunkHeight := 10\<rparr>]\<rparr>) \<and>
   work (small_garden\<lparr>trees := [scenario_root\<lparr>trunkHeight := 10\<rparr>]\<rparr>, []) =
     (planNextTrees (scenario_root\<lparr>trunkHeight := 10\<rparr>) (small_garden\<lparr>trees := []\<rparr>),
      drawTree (scenario_root\<lparr>trunkHeight := 10\<rparr>) []) \<and>
   painted (replay (canvas small_garden)
      (snd (work (small_garden\<lparr>trees := [scenario_root\<lparr>trunkHeight := 10\<rparr>]\<rparr>, [])))) =
     [(''#333344'', p0 (scenario_root\<lparr>trunkHeight := 10\<rparr>), p1 (scenario_root\<lparr>trunkHeight := 10\<rparr>)),
      (''#333344'', p1 (scenario_root\<lparr>trunkHeight := 10\<rparr>), p2 (scenario_root\<lparr>trunkHeight := 10\<rparr>)),
      (''#AA3340'', p1 (scenario_root\<lparr>trunkHeight := 10\<rparr>), p3 (scenario_root\<lparr>trunkHeight := 10\<rparr>))] \<and>
   trees (GardenDirector_new scenario) = [scenario_root] \<and>
   maxTrunkHeight (GardenDirector_new scenario) =
     trunkHeight scenario_root * branchRatio scenario_root ^ 7 \<and>
   0 < trunkHeight scenario_root \<and> 0 < branchRatio scenario_root \<and>
   branchRatio scenario_root < 1 \<and>
   (work ^^ 255) (GardenDirector_new scenario, []) =
     ((GardenDirector_new scenario)\<lparr>trees := generation 8 scenario_root\<rparr>,
      drawing_upto 7 scenario_root @ drawing (generation 7 scenario_root)) \<and>
   painted (replay (canvas small_garden) (snd ((work ^^ 255) (GardenDirector_new scenario, [])))) =
     segments_upto 7 scenario_root @ concat (map segments (generation 7 scenario_root))"
  using C9_strict_cutoff [of "small_garden\<lparr>trees := [scenario_root\<lparr>trunkHeight := 10\<rparr>]\<rparr>"
      "scenario_root\<lparr>trunkHeight := 10\<rparr>" "[]" "[]" "canvas small_garden"
      "GardenDirector_new scenario" scenario_root "[]"]
  by (simp add: scenario_facts small_garden_def replay_empty replay_drawTree segments_def
      replay_drawing replay_drawing_upto [of _ "[]", simplified])

end
